theory Spec2Isabelle
  imports Main
begin

section \<open>Texts\<close>

text \<open>
  The script \<^verbatim>\<open>scripts/check_version_consistency.py\<close> reads five project files as
  text, recovers a version string from each with a regular expression, and compares
  what it found. A text is a \<^typ>\<open>string\<close>; one \<^typ>\<open>char\<close> stands for one code
  point of the Python string, so the model speaks about texts whose code points lie
  below 256. On that range \<^verbatim>\<open>\d\<close> accepts exactly the ten ASCII digits and
  \<^verbatim>\<open>\s\<close> the twelve code points listed in \<open>is_space\<close> (what CPython's
  \<^verbatim>\<open>Py_UNICODE_ISSPACE\<close> accepts there).

  The five status glyphs that the script prints lie above that range. Each is written
  as the chars of its UTF-8 encoding, so that a printed line stays a plain string.
\<close>

definition newline :: char where
  "newline = CHR 0x0A"

definition dquote :: char where
  "dquote = CHR 0x22"

definition squote :: char where
  "squote = CHR 0x27"

definition cross_mark :: string where
  \<comment> \<open>U+274C, the failure glyph\<close>
  "cross_mark = [CHR 0xE2, CHR 0x9D, CHR 0x8C]"

definition magnifier :: string where
  \<comment> \<open>U+1F50D\<close>
  "magnifier = [CHR 0xF0, CHR 0x9F, CHR 0x94, CHR 0x8D]"

definition light_bulb :: string where
  \<comment> \<open>U+1F4A1\<close>
  "light_bulb = [CHR 0xF0, CHR 0x9F, CHR 0x92, CHR 0xA1]"

definition check_mark :: string where
  \<comment> \<open>U+2705, the success glyph\<close>
  "check_mark = [CHR 0xE2, CHR 0x9C, CHR 0x85]"

definition folder :: string where
  \<comment> \<open>U+1F4C1\<close>
  "folder = [CHR 0xF0, CHR 0x9F, CHR 0x93, CHR 0x81]"

text \<open>\<^verbatim>\<open>sub in s\<close> on strings, and \<^verbatim>\<open>sep.join(xs)\<close>.\<close>

fun contains :: "string \<Rightarrow> string \<Rightarrow> bool" where
  "contains sub [] = (sub = [])"
| "contains sub (c # s) = (take (length sub) (c # s) = sub \<or> contains sub s)"

fun join :: "string \<Rightarrow> string list \<Rightarrow> string" where
  "join sep [] = []"
| "join sep [x] = x"
| "join sep (x # y # ys) = x @ sep @ join sep (y # ys)"


section \<open>The regular expressions of the script\<close>

text \<open>
  The part of Python's \<^verbatim>\<open>re\<close> syntax that the six patterns of the script use:
  character classes and their complements, the anchors \<^verbatim>\<open>^\<close> (with and without
  \<^verbatim>\<open>re.MULTILINE\<close>) and \<^verbatim>\<open>$\<close> (without), sequence, the greedy operators
  \<^verbatim>\<open>*\<close>, \<^verbatim>\<open>+\<close>, \<^verbatim>\<open>?\<close>, and one capturing group.
\<close>

datatype citem =
    C char          \<comment> \<open>one character\<close>
  | R char char     \<comment> \<open>a range \<^verbatim>\<open>lo-hi\<close>\<close>
  | Space           \<comment> \<open>\<^verbatim>\<open>\s\<close>\<close>
  | Digit           \<comment> \<open>\<^verbatim>\<open>\d\<close>\<close>

datatype re =
    Eps                    \<comment> \<open>the empty pattern\<close>
  | Chars "citem list"     \<comment> \<open>\<^verbatim>\<open>[...]\<close>, also a single literal character\<close>
  | NotChars "citem list"  \<comment> \<open>\<^verbatim>\<open>[^...]\<close>\<close>
  | Bol                    \<comment> \<open>\<^verbatim>\<open>^\<close> under \<^verbatim>\<open>re.MULTILINE\<close>\<close>
  | Bos                    \<comment> \<open>\<^verbatim>\<open>^\<close> without flags\<close>
  | Eos                    \<comment> \<open>\<^verbatim>\<open>$\<close> without flags\<close>
  | Seq re re
  | Alt re re              \<comment> \<open>ordered choice: the left branch is tried first\<close>
  | Star re                \<comment> \<open>greedy \<^verbatim>\<open>*\<close>\<close>
  | Grp re                 \<comment> \<open>the capturing group, \<^verbatim>\<open>(...)\<close>\<close>

definition is_space :: "char \<Rightarrow> bool" where
  "is_space c = ((of_char c :: nat) \<in> {9, 10, 11, 12, 13, 28, 29, 30, 31, 32, 133, 160})"

definition is_digit :: "char \<Rightarrow> bool" where
  "is_digit c = (48 \<le> (of_char c :: nat) \<and> (of_char c :: nat) \<le> 57)"

fun in_item :: "char \<Rightarrow> citem \<Rightarrow> bool" where
  "in_item c (C d) = (c = d)"
| "in_item c (R lo hi) = ((of_char lo :: nat) \<le> of_char c \<and> (of_char c :: nat) \<le> of_char hi)"
| "in_item c Space = is_space c"
| "in_item c Digit = is_digit c"

definition in_class :: "citem list \<Rightarrow> char \<Rightarrow> bool" where
  "in_class cs c = list_ex (in_item c) cs"

text \<open>
  A position in the subject: the character just before it (\<open>None\<close> at the start of the
  string) and the text that is left. The anchors need nothing more.
\<close>

type_synonym pos = "char option \<times> string"

text \<open>A match: where it ends, and what group 1 captured if it took part.\<close>

type_synonym rmatch = "pos \<times> string option"

definition later :: "string option \<Rightarrow> string option \<Rightarrow> string option" where
  "later g h = (case h of None \<Rightarrow> g | Some x \<Rightarrow> Some x)"

text \<open>
  \<open>rm r p\<close> lists every way \<open>r\<close> can match at \<open>p\<close>, in the order in which a
  backtracking matcher tries them: the first element is the match that \<^verbatim>\<open>re\<close>
  reports. \<^verbatim>\<open>^\<close> under \<^verbatim>\<open>MULTILINE\<close> holds at the start and after a newline;
  \<^verbatim>\<open>$\<close> without flags holds at the end and just before a newline that ends the
  string. A round of \<open>Star\<close> that consumes nothing is not repeated; in the patterns of
  the script every starred pattern consumes at least one character.
\<close>

function rm :: "re \<Rightarrow> pos \<Rightarrow> rmatch list" where
  "rm Eps p = [(p, None)]"
| "rm (Chars cs) p =
     (case snd p of [] \<Rightarrow> [] | c # t \<Rightarrow> if in_class cs c then [((Some c, t), None)] else [])"
| "rm (NotChars cs) p =
     (case snd p of [] \<Rightarrow> [] | c # t \<Rightarrow> if in_class cs c then [] else [((Some c, t), None)])"
| "rm Bol p = (if fst p = None \<or> fst p = Some newline then [(p, None)] else [])"
| "rm Bos p = (if fst p = None then [(p, None)] else [])"
| "rm Eos p = (if snd p = [] \<or> snd p = [newline] then [(p, None)] else [])"
| "rm (Seq a b) p =
     concat (map (\<lambda>m. map (\<lambda>n. (fst n, later (snd m) (snd n))) (rm b (fst m))) (rm a p))"
| "rm (Alt a b) p = rm a p @ rm b p"
| "rm (Star a) p =
     concat (map (\<lambda>m. if length (snd (fst m)) < length (snd p)
                       then map (\<lambda>n. (fst n, later (snd m) (snd n))) (rm (Star a) (fst m))
                       else [])
                 (rm a p))
     @ [(p, None)]"
| "rm (Grp a) p =
     map (\<lambda>m. (fst m, Some (take (length (snd p) - length (snd (fst m))) (snd p)))) (rm a p)"
  by pat_completeness auto
termination
  by (relation "inv_image (less_than <*lex*> less_than) (\<lambda>(r, p). (size r, length (snd p)))")
     auto

definition seqs :: "re list \<Rightarrow> re" where
  "seqs rs = foldr Seq rs Eps"

definition lit :: "string \<Rightarrow> re" where
  "lit s = seqs (map (\<lambda>c. Chars [C c]) s)"

definition Plus :: "re \<Rightarrow> re" where
  \<comment> \<open>greedy \<^verbatim>\<open>+\<close>\<close>
  "Plus r = Seq r (Star r)"

definition Opt :: "re \<Rightarrow> re" where
  \<comment> \<open>greedy \<^verbatim>\<open>?\<close>\<close>
  "Opt r = Alt r Eps"

text \<open>
  \<^verbatim>\<open>re.search\<close> tries the start positions from left to right and returns the first
  match of the leftmost position that has one; \<^verbatim>\<open>re.match\<close> tries position 0 only.
  \<^verbatim>\<open>group(1)\<close> is the capture, \<open>None\<close> when the group took no part.
\<close>

fun search_from :: "re \<Rightarrow> char option \<Rightarrow> string \<Rightarrow> rmatch option" where
  "search_from r prev [] = (case rm r (prev, []) of m # _ \<Rightarrow> Some m | [] \<Rightarrow> None)"
| "search_from r prev (c # s) =
     (case rm r (prev, c # s) of m # _ \<Rightarrow> Some m | [] \<Rightarrow> search_from r (Some c) s)"

definition re_search :: "re \<Rightarrow> string \<Rightarrow> rmatch option" where
  "re_search r s = search_from r None s"

definition re_match :: "re \<Rightarrow> string \<Rightarrow> rmatch option" where
  "re_match r s = (case rm r (None, s) of m # _ \<Rightarrow> Some m | [] \<Rightarrow> None)"

definition group1 :: "rmatch \<Rightarrow> string option" where
  "group1 m = snd m"

definition quotes :: "citem list" where
  \<comment> \<open>the members of \<^verbatim>\<open>["\']\<close>\<close>
  "quotes = [C dquote, C squote]"

definition init_pattern :: re where
  \<comment> \<open>\<^verbatim>\<open>r'^__version__\s*=\s*["\']([^"\']+)["\']'\<close> with \<^verbatim>\<open>re.MULTILINE\<close>\<close>
  "init_pattern = seqs [Bol, lit ''__version__'', Star (Chars [Space]), lit ''='',
     Star (Chars [Space]), Chars quotes, Grp (Plus (NotChars quotes)), Chars quotes]"

definition pyproject_pattern :: re where
  \<comment> \<open>\<^verbatim>\<open>r'^version\s*=\s*["\']([^"\']+)["\']'\<close> with \<^verbatim>\<open>re.MULTILINE\<close>\<close>
  "pyproject_pattern = seqs [Bol, lit ''version'', Star (Chars [Space]), lit ''='',
     Star (Chars [Space]), Chars quotes, Grp (Plus (NotChars quotes)), Chars quotes]"

definition setup_pattern :: re where
  \<comment> \<open>\<^verbatim>\<open>r'version\s*=\s*["\']([^"\']+)["\']'\<close>\<close>
  "setup_pattern = seqs [lit ''version'', Star (Chars [Space]), lit ''='',
     Star (Chars [Space]), Chars quotes, Grp (Plus (NotChars quotes)), Chars quotes]"

definition dockerfile_pattern :: re where
  \<comment> \<open>\<^verbatim>\<open>r'ARG\s+VERSION\s*=\s*["\']?([^"\'\s]+)'\<close>\<close>
  "dockerfile_pattern = seqs [lit ''ARG'', Plus (Chars [Space]), lit ''VERSION'',
     Star (Chars [Space]), lit ''='', Star (Chars [Space]), Opt (Chars quotes),
     Grp (Plus (NotChars (quotes @ [Space])))]"

definition workflow_pattern :: re where
  \<comment> \<open>\<^verbatim>\<open>r'VERSION:\s*["\']?([^"\'\s]+)'\<close>\<close>
  "workflow_pattern = seqs [lit ''VERSION:'', Star (Chars [Space]), Opt (Chars quotes),
     Grp (Plus (NotChars (quotes @ [Space])))]"

definition ident :: re where
  \<comment> \<open>\<^verbatim>\<open>[a-zA-Z0-9-]+\<close>\<close>
  "ident = Plus (Chars [R CHR ''a'' CHR ''z'', R CHR ''A'' CHR ''Z'', R CHR ''0'' CHR ''9'',
     C CHR ''-''])"

definition idents :: re where
  \<comment> \<open>\<^verbatim>\<open>[a-zA-Z0-9-]+(?:\.[a-zA-Z0-9-]+)*\<close>\<close>
  "idents = Seq ident (Star (Seq (lit ''.'') ident))"

definition semver_pattern :: re where
  \<comment> \<open>\<^verbatim>\<open>r'^\d+\.\d+\.\d+(?:-[a-zA-Z0-9-]+(?:\.[a-zA-Z0-9-]+)*)?(?:\+[a-zA-Z0-9-]+(?:\.[a-zA-Z0-9-]+)*)?$'\<close>\<close>
  "semver_pattern = seqs [Bos, Plus (Chars [Digit]), lit ''.'', Plus (Chars [Digit]), lit ''.'',
     Plus (Chars [Digit]), Opt (Seq (lit ''-'') idents), Opt (Seq (lit ''+'') idents), Eos]"


section \<open>Files, printed lines and exceptions\<close>

text \<open>
  What the script sees of one path: \<^verbatim>\<open>Path.exists()\<close> is false (\<open>Missing\<close>); the path
  exists and \<^verbatim>\<open>read_text(encoding='utf-8')\<close> returns its text; or the path exists and
  \<^verbatim>\<open>read_text\<close> raises (no permission to read, bytes that are not UTF-8, a
  directory under that name).
\<close>

datatype artifact = Missing | Unreadable | Text string

record files =
  init_file :: artifact        \<comment> \<open>\<^verbatim>\<open>ai_data_collector/__init__.py\<close>\<close>
  pyproject_file :: artifact   \<comment> \<open>\<^verbatim>\<open>pyproject.toml\<close>\<close>
  setup_file :: artifact       \<comment> \<open>\<^verbatim>\<open>setup.py\<close>\<close>
  dockerfile :: artifact       \<comment> \<open>\<^verbatim>\<open>docker/Dockerfile\<close>\<close>
  workflow_file :: artifact    \<comment> \<open>\<^verbatim>\<open>.github/workflows/ci.yml\<close>\<close>

definition init_path :: string where
  "init_path = ''ai_data_collector/__init__.py''"

definition pyproject_path :: string where
  "pyproject_path = ''pyproject.toml''"

definition setup_path :: string where
  "setup_path = ''setup.py''"

definition dockerfile_path :: string where
  "dockerfile_path = ''docker/Dockerfile''"

definition workflow_path :: string where
  "workflow_path = ''.github/workflows/ci.yml''"

text \<open>
  The script has no \<^verbatim>\<open>try\<close>: an exception raised by \<^verbatim>\<open>read_text\<close> leaves every
  function on the call stack. A computation is the lines it has printed so far and
  either the exception that ended it (\<open>Inl\<close>) or its value (\<open>Inr\<close>).
\<close>

datatype exn = ReadError string   \<comment> \<open>raised by \<^verbatim>\<open>read_text\<close> on the given path\<close>

type_synonym 'a io = "string list \<times> (exn + 'a)"

definition io_return :: "'a \<Rightarrow> 'a io" where
  "io_return x = ([], Inr x)"

definition io_bind :: "'a io \<Rightarrow> ('a \<Rightarrow> 'b io) \<Rightarrow> 'b io" where
  "io_bind m f =
     (case snd m of
        Inl e \<Rightarrow> (fst m, Inl e)
      | Inr a \<Rightarrow> (fst m @ fst (f a), snd (f a)))"

definition print_then :: "string list \<Rightarrow> 'a \<Rightarrow> 'a io" where
  \<comment> \<open>\<^verbatim>\<open>print\<close> each line, then \<^verbatim>\<open>return x\<close>\<close>
  "print_then ls x = (ls, Inr x)"

definition exists :: "artifact \<Rightarrow> bool" where
  "exists f = (f \<noteq> Missing)"

definition read_text :: "string \<Rightarrow> artifact \<Rightarrow> string io" where
  "read_text path f = (case f of Text s \<Rightarrow> io_return s | _ \<Rightarrow> ([], Inl (ReadError path)))"


section \<open>The extractors\<close>

definition extract_version_from_init :: "files \<Rightarrow> string option io" where
  "extract_version_from_init fs =
     (if \<not> exists (init_file fs)
      then print_then [cross_mark @ '' '' @ init_path @ '' not found''] None
      else io_bind (read_text init_path (init_file fs)) (\<lambda>content.
        case re_search init_pattern content of
          Some version_match \<Rightarrow> io_return (group1 version_match)
        | None \<Rightarrow> print_then [cross_mark @ '' No __version__ found in '' @ init_path] None))"

definition extract_version_from_pyproject :: "files \<Rightarrow> string option io" where
  "extract_version_from_pyproject fs =
     (if \<not> exists (pyproject_file fs)
      then print_then [cross_mark @ '' '' @ pyproject_path @ '' not found''] None
      else io_bind (read_text pyproject_path (pyproject_file fs)) (\<lambda>content.
        case re_search pyproject_pattern content of
          Some version_match \<Rightarrow> io_return (group1 version_match)
        | None \<Rightarrow> print_then [cross_mark @ '' No version found in '' @ pyproject_path] None))"

definition extract_version_from_setup :: "files \<Rightarrow> string option io" where
  "extract_version_from_setup fs =
     (if \<not> exists (setup_file fs)
      then io_return None
      else io_bind (read_text setup_path (setup_file fs)) (\<lambda>content.
        case re_search setup_pattern content of
          Some version_match \<Rightarrow> io_return (group1 version_match)
        | None \<Rightarrow>
            if contains ''find_version()'' content
            then extract_version_from_init fs
            else io_return None))"

definition extract_version_from_dockerfile :: "files \<Rightarrow> string option io" where
  "extract_version_from_dockerfile fs =
     (if \<not> exists (dockerfile fs)
      then io_return None
      else io_bind (read_text dockerfile_path (dockerfile fs)) (\<lambda>content.
        case re_search dockerfile_pattern content of
          Some version_match \<Rightarrow> io_return (group1 version_match)
        | None \<Rightarrow> io_return None))"

definition extract_version_from_github_workflow :: "files \<Rightarrow> string option io" where
  "extract_version_from_github_workflow fs =
     (if \<not> exists (workflow_file fs)
      then io_return None
      else io_bind (read_text workflow_path (workflow_file fs)) (\<lambda>content.
        case re_search workflow_pattern content of
          Some version_match \<Rightarrow> io_return (group1 version_match)
        | None \<Rightarrow> io_return None))"


section \<open>The format validator\<close>

definition validate_version_format :: "string \<Rightarrow> bool" where
  "validate_version_format version = (re_match semver_pattern version \<noteq> None)"


section \<open>The reconciler\<close>

text \<open>
  \<^verbatim>\<open>main\<close> in three parts: the dictionary \<^verbatim>\<open>versions\<close> (lines 166 to 172; a
  dictionary literal evaluates its values in the order written, and keeps that order),
  the verdict computed from it (lines 174 to 212), and \<^verbatim>\<open>main\<close> itself, which
  prints its opening line and runs the two.
\<close>

type_synonym versions = "(string \<times> string option) list"

definition main_versions :: "files \<Rightarrow> versions io" where
  "main_versions fs =
     io_bind (extract_version_from_init fs) (\<lambda>v1.
     io_bind (extract_version_from_pyproject fs) (\<lambda>v2.
     io_bind (extract_version_from_setup fs) (\<lambda>v3.
     io_bind (extract_version_from_dockerfile fs) (\<lambda>v4.
     io_bind (extract_version_from_github_workflow fs) (\<lambda>v5.
     io_return [(''__init__.py'', v1), (''pyproject.toml'', v2), (''setup.py'', v3),
                (''Dockerfile'', v4), (''GitHub workflow'', v5)])))))"

definition found_versions :: "versions \<Rightarrow> (string \<times> string) list" where
  \<comment> \<open>\<^verbatim>\<open>{file: version for file, version in versions.items() if version is not None}\<close>\<close>
  "found_versions versions =
     [(name, the version). (name, version) \<leftarrow> versions, version \<noteq> None]"

definition unique_versions :: "versions \<Rightarrow> string list" where
  \<comment> \<open>\<^verbatim>\<open>set(found_versions.values())\<close>: each value once. The script asks for its size
      and, when that is 1, for its element, so the order of the list plays no part.\<close>
  "unique_versions versions = remdups (map snd (found_versions versions))"

definition required_files :: "string list" where
  "required_files = [''__init__.py'', ''pyproject.toml'']"

definition missing_files :: "versions \<Rightarrow> string list" where
  \<comment> \<open>\<^verbatim>\<open>[file for file in required_files if file not in found_versions]\<close>\<close>
  "missing_files versions =
     [name \<leftarrow> required_files. name \<notin> set (map fst (found_versions versions))]"

definition mismatch_line :: "string \<times> string \<Rightarrow> string" where
  \<comment> \<open>\<^verbatim>\<open>f"   {file}: {version}"\<close>\<close>
  "mismatch_line fv = ''   '' @ fst fv @ '': '' @ snd fv"

definition main_verdict :: "versions \<Rightarrow> int io" where
  "main_verdict versions =
     (if found_versions versions = []
      then print_then [cross_mark @ '' No version information found in any file''] 1
      else if length (unique_versions versions) > 1
      then print_then
             ([cross_mark @ '' Version mismatch detected:'']
              @ map mismatch_line (found_versions versions)
              @ [[], light_bulb @ '' Please ensure all version numbers are consistent'']) 1
      else let common_version = hd (unique_versions versions) in
        if \<not> validate_version_format common_version
        then print_then
               [cross_mark @ '' Invalid version format: '' @ common_version,
                light_bulb @ '' Version should follow semantic versioning (e.g., 1.0.0, 1.0.0-alpha.1)''] 1
        else if missing_files versions \<noteq> []
        then print_then
               [cross_mark @ '' Version missing from required files: ''
                  @ join '', '' (missing_files versions)] 1
        else print_then
               [check_mark @ '' All versions are consistent: '' @ common_version,
                folder @ '' Found in: '' @ join '', '' (map fst (found_versions versions))] 0)"

definition main :: "files \<Rightarrow> int io" where
  "main fs =
     io_bind (print_then [magnifier @ '' Checking version consistency across project files...''] ())
       (\<lambda>_. io_bind (main_versions fs) main_verdict)"

text \<open>
  The entry point is \<^verbatim>\<open>sys.exit(main())\<close>: the value that \<^verbatim>\<open>main\<close> returns is the
  exit status of the process. An exception that nothing catches ends the interpreter
  with a traceback and exit status 1.
\<close>

definition script_exit_code :: "files \<Rightarrow> int" where
  "script_exit_code fs = (case snd (main fs) of Inl e \<Rightarrow> 1 | Inr code \<Rightarrow> code)"


section \<open>Printed lines and project states used below\<close>

definition checking_line :: string where
  "checking_line = magnifier @ '' Checking version consistency across project files...''"

definition init_not_found_line :: string where
  "init_not_found_line = cross_mark @ '' ai_data_collector/__init__.py not found''"

definition init_no_version_line :: string where
  "init_no_version_line = cross_mark @ '' No __version__ found in ai_data_collector/__init__.py''"

definition pyproject_not_found_line :: string where
  "pyproject_not_found_line = cross_mark @ '' pyproject.toml not found''"

definition pyproject_no_version_line :: string where
  "pyproject_no_version_line = cross_mark @ '' No version found in pyproject.toml''"

definition mismatch_header :: string where
  "mismatch_header = cross_mark @ '' Version mismatch detected:''"

definition missing_line :: "string \<Rightarrow> string" where
  "missing_line names = cross_mark @ '' Version missing from required files: '' @ names"

definition success_line :: "string \<Rightarrow> string" where
  "success_line v = check_mark @ '' All versions are consistent: '' @ v"

definition found_in_line :: "string list \<Rightarrow> string" where
  "found_in_line names = folder @ '' Found in: '' @ join '', '' names"

text \<open>The diagnostics of the two mandatory extractors: no extractor prints any other line.\<close>

definition extractor_lines :: "string set" where
  "extractor_lines = {init_not_found_line, init_no_version_line,
     pyproject_not_found_line, pyproject_no_version_line}"

text \<open>The two mandatory files as a project would write them, around a version \<open>v\<close>.\<close>

definition quoted :: "string \<Rightarrow> string" where
  "quoted s = dquote # s @ [dquote]"

definition init_text :: "string \<Rightarrow> string" where
  "init_text v = ''__version__ = '' @ quoted v @ [newline]"

definition pyproject_text :: "string \<Rightarrow> string" where
  "pyproject_text v = ''[project]'' @ [newline] @ ''version = '' @ quoted v @ [newline]"

definition project :: "string \<Rightarrow> string \<Rightarrow> files" where
  \<comment> \<open>both mandatory files, no optional file\<close>
  "project a b = \<lparr>init_file = Text (init_text a), pyproject_file = Text (pyproject_text b),
     setup_file = Missing, dockerfile = Missing, workflow_file = Missing\<rparr>"

definition scenario_A :: files where
  "scenario_A = project ''1.2.3'' ''1.2.3''"

definition scenario_B :: files where
  "scenario_B = project ''1.2.3'' ''1.2.4''"

definition scenario_C :: files where
  "scenario_C = project ''1.2'' ''1.2''"

definition scenario_D :: files where
  "scenario_D = (project ''1.0.0'' ''1.0.0'')\<lparr>pyproject_file := Missing\<rparr>"

definition workflow_text :: string where
  "workflow_text = ''env:'' @ [newline] @ ''  PYTHON_VERSION: 3.11'' @ [newline]"

definition disagreeing_and_incomplete :: files where
  \<comment> \<open>no \<^verbatim>\<open>pyproject.toml\<close>, and a workflow whose Python version is taken for a version\<close>
  "disagreeing_and_incomplete =
     (project ''1.2.3'' ''1.2.3'')\<lparr>pyproject_file := Missing, workflow_file := Text workflow_text\<rparr>"

definition plain_workflow :: files where
  \<comment> \<open>Scenario A with a workflow file that sets no \<^verbatim>\<open>VERSION:\<close> key\<close>
  "plain_workflow = scenario_A\<lparr>workflow_file := Text (''name: CI'' @ [newline])\<rparr>"

definition unreadable_init :: files where
  "unreadable_init = (project ''1.2.3'' ''1.2.3'')\<lparr>init_file := Unreadable\<rparr>"

definition setup_text :: string where
  "setup_text = ''setup(version=find_version())'' @ [newline]"

definition delegating_setup :: files where
  \<comment> \<open>no \<^verbatim>\<open>__init__.py\<close>, and a \<^verbatim>\<open>setup.py\<close> that calls \<^verbatim>\<open>find_version()\<close>\<close>
  "delegating_setup =
     (project ''1.2.3'' ''1.2.3'')\<lparr>init_file := Missing, setup_file := Text setup_text\<rparr>"

definition delegating_setup_unreadable_pyproject :: files where
  "delegating_setup_unreadable_pyproject = delegating_setup\<lparr>pyproject_file := Unreadable\<rparr>"

definition trailing_newline :: files where
  \<comment> \<open>both mandatory files hold the version \<^verbatim>\<open>1.0.0\<close> followed by a line break, inside the quotes\<close>
  "trailing_newline = project (''1.0.0'' @ [newline]) (''1.0.0'' @ [newline])"


section \<open>What a pattern accepts\<close>

text \<open>
  \<open>consumes r s t\<close>: the pattern \<open>r\<close>, started on the text \<open>s\<close>, can stop with \<open>t\<close>
  left over. It is the matcher \<open>rm\<close> without the order of the matches and without
  the capture, for patterns that have no \<^verbatim>\<open>^\<close> (which \<open>no_caret\<close> says).
\<close>

fun no_caret :: "re \<Rightarrow> bool" where
  "no_caret Bol = False"
| "no_caret Bos = False"
| "no_caret (Seq a b) = (no_caret a \<and> no_caret b)"
| "no_caret (Alt a b) = (no_caret a \<and> no_caret b)"
| "no_caret (Star a) = no_caret a"
| "no_caret (Grp a) = no_caret a"
| "no_caret _ = True"

inductive consumes :: "re \<Rightarrow> string \<Rightarrow> string \<Rightarrow> bool" where
  c_Eps: "consumes Eps s s"
| c_Chars: "in_class cs c \<Longrightarrow> consumes (Chars cs) (c # t) t"
| c_NotChars: "\<not> in_class cs c \<Longrightarrow> consumes (NotChars cs) (c # t) t"
| c_Eos: "s = [] \<or> s = [newline] \<Longrightarrow> consumes Eos s s"
| c_Seq: "consumes a s t \<Longrightarrow> consumes b t u \<Longrightarrow> consumes (Seq a b) s u"
| c_Alt1: "consumes a s t \<Longrightarrow> consumes (Alt a b) s t"
| c_Alt2: "consumes b s t \<Longrightarrow> consumes (Alt a b) s t"
| c_Star0: "consumes (Star a) s s"
| c_Star: "consumes a s t \<Longrightarrow> length t < length s \<Longrightarrow> consumes (Star a) t u
           \<Longrightarrow> consumes (Star a) s u"
| c_Grp: "consumes a s t \<Longrightarrow> consumes (Grp a) s t"

text \<open>The pattern of the validator after its leading \<^verbatim>\<open>^\<close>.\<close>

definition semver_body :: re where
  "semver_body = seqs [Plus (Chars [Digit]), lit ''.'', Plus (Chars [Digit]), lit ''.'',
     Plus (Chars [Digit]), Opt (Seq (lit ''-'') idents), Opt (Seq (lit ''+'') idents), Eos]"

section \<open>The grammar in the words of the specification\<close>

text \<open>
  MAJOR.MINOR.PATCH, each component one or more decimal digits, then optionally
  \<^verbatim>\<open>-\<close> and one or more dot-separated identifiers, then optionally \<^verbatim>\<open>+\<close> and one or
  more dot-separated identifiers; an identifier is one or more characters that are
  letters, digits or hyphens. The string is all of that and nothing more.
\<close>

definition alnum_or_hyphen :: "char \<Rightarrow> bool" where
  "alnum_or_hyphen c =
     ((97 \<le> (of_char c :: nat) \<and> (of_char c :: nat) \<le> 122) \<or>
      (65 \<le> (of_char c :: nat) \<and> (of_char c :: nat) \<le> 90) \<or>
      (48 \<le> (of_char c :: nat) \<and> (of_char c :: nat) \<le> 57) \<or> c = CHR ''-'')"

definition spec_digits :: "string \<Rightarrow> bool" where
  "spec_digits w = (w \<noteq> [] \<and> list_all is_digit w)"

definition spec_identifier :: "string \<Rightarrow> bool" where
  "spec_identifier w = (w \<noteq> [] \<and> list_all alnum_or_hyphen w)"

definition spec_identifiers :: "string \<Rightarrow> bool" where
  "spec_identifiers w =
     (\<exists>ids. ids \<noteq> [] \<and> list_all spec_identifier ids \<and> w = join ''.'' ids)"

definition spec_suffix :: "char \<Rightarrow> string \<Rightarrow> bool" where
  \<comment> \<open>an optional suffix: nothing, or the sign and its identifiers\<close>
  "spec_suffix sign w = (w = [] \<or> (\<exists>x. spec_identifiers x \<and> w = sign # x))"

definition spec_semver :: "string \<Rightarrow> bool" where
  "spec_semver s =
     (\<exists>major minor patch pre build.
        spec_digits major \<and> spec_digits minor \<and> spec_digits patch \<and>
        spec_suffix CHR ''-'' pre \<and> spec_suffix CHR ''+'' build \<and>
        s = major @ ''.'' @ minor @ ''.'' @ patch @ pre @ build)"


section \<open>Sequencing\<close>

lemma io_bind_Inr: "snd m = Inr a \<Longrightarrow> io_bind m f = (fst m @ fst (f a), snd (f a))"
  by (simp add: io_bind_def)

lemma io_bind_Inl: "snd m = Inl e \<Longrightarrow> io_bind m f = (fst m, Inl e)"
  by (simp add: io_bind_def)

lemma main_of_versions:
  assumes "snd (main_versions fs) = Inr versions"
  shows "main fs = (checking_line # fst (main_versions fs) @ fst (main_verdict versions),
                    snd (main_verdict versions))"
  using assms by (simp add: main_def io_bind_def print_then_def checking_line_def)

lemma main_of_raise:
  assumes "snd (main_versions fs) = Inl e"
  shows "main fs = (checking_line # fst (main_versions fs), Inl e)"
  using assms by (simp add: main_def io_bind_def print_then_def checking_line_def)


section \<open>The verdict as a function of the dictionary\<close>

lemma found_versions_iff:
  "(n, v) \<in> set (found_versions versions) \<longleftrightarrow> (n, Some v) \<in> set versions"
  by (induction versions) (auto simp: found_versions_def)

lemma unique_versions_length:
  "length (unique_versions versions) = card (set (map snd (found_versions versions)))"
  by (simp add: unique_versions_def length_remdups_card_conv)

lemma unique_versions_single:
  assumes "set (map snd (found_versions versions)) = {v}"
  shows "unique_versions versions = [v]"
proof -
  have l: "length (unique_versions versions) = 1"
    using assms by (simp add: unique_versions_length)
  have s: "set (unique_versions versions) = {v}"
    using assms by (simp add: unique_versions_def)
  from l obtain x where "unique_versions versions = [x]"
    by (cases "unique_versions versions") auto
  with s show ?thesis by simp
qed

lemma verdict_mismatch:
  assumes "1 < card (set (map snd (found_versions versions)))"
  shows "main_verdict versions =
    (mismatch_header # map mismatch_line (found_versions versions)
      @ [[], light_bulb @ '' Please ensure all version numbers are consistent''], Inr 1)"
proof -
  have "found_versions versions \<noteq> []" using assms by auto
  moreover have "1 < length (unique_versions versions)"
    using assms by (simp add: unique_versions_length)
  ultimately show ?thesis by (simp add: main_verdict_def print_then_def mismatch_header_def)
qed

lemma verdict_single:
  assumes "set (map snd (found_versions versions)) = {v}"
  shows "main_verdict versions =
    (if \<not> validate_version_format v
     then ([cross_mark @ '' Invalid version format: '' @ v,
            light_bulb @ '' Version should follow semantic versioning (e.g., 1.0.0, 1.0.0-alpha.1)''], Inr 1)
     else if missing_files versions \<noteq> []
     then ([missing_line (join '', '' (missing_files versions))], Inr 1)
     else ([success_line v, found_in_line (map fst (found_versions versions))], Inr 0))"
proof -
  have "found_versions versions \<noteq> []" using assms by auto
  then show ?thesis
    using unique_versions_single [OF assms]
    by (simp add: main_verdict_def print_then_def missing_line_def success_line_def
        found_in_line_def)
qed

lemma verdict_code: "snd (main_verdict versions) = Inr 0 \<or> snd (main_verdict versions) = Inr 1"
  by (simp add: main_verdict_def print_then_def Let_def)


section \<open>What each extractor does in each state of its file\<close>

lemma extract_version_from_init_cases:
  "extract_version_from_init fs =
     (case init_file fs of
        Missing \<Rightarrow> ([init_not_found_line], Inr None)
      | Unreadable \<Rightarrow> ([], Inl (ReadError init_path))
      | Text content \<Rightarrow>
          (case re_search init_pattern content of
             Some m \<Rightarrow> ([], Inr (group1 m))
           | None \<Rightarrow> ([init_no_version_line], Inr None)))"
  by (simp add: extract_version_from_init_def exists_def read_text_def io_bind_def io_return_def
      print_then_def init_not_found_line_def init_no_version_line_def init_path_def
      split: artifact.splits option.splits)

lemma extract_version_from_pyproject_cases:
  "extract_version_from_pyproject fs =
     (case pyproject_file fs of
        Missing \<Rightarrow> ([pyproject_not_found_line], Inr None)
      | Unreadable \<Rightarrow> ([], Inl (ReadError pyproject_path))
      | Text content \<Rightarrow>
          (case re_search pyproject_pattern content of
             Some m \<Rightarrow> ([], Inr (group1 m))
           | None \<Rightarrow> ([pyproject_no_version_line], Inr None)))"
  by (simp add: extract_version_from_pyproject_def exists_def read_text_def io_bind_def
      io_return_def print_then_def pyproject_not_found_line_def pyproject_no_version_line_def
      pyproject_path_def split: artifact.splits option.splits)

lemma extract_version_from_setup_cases:
  "extract_version_from_setup fs =
     (case setup_file fs of
        Missing \<Rightarrow> ([], Inr None)
      | Unreadable \<Rightarrow> ([], Inl (ReadError setup_path))
      | Text content \<Rightarrow>
          (case re_search setup_pattern content of
             Some m \<Rightarrow> ([], Inr (group1 m))
           | None \<Rightarrow>
               if contains ''find_version()'' content
               then extract_version_from_init fs
               else ([], Inr None)))"
  by (simp add: extract_version_from_setup_def exists_def read_text_def io_bind_def io_return_def
      split: artifact.splits option.splits)

lemma extract_version_from_dockerfile_cases:
  "extract_version_from_dockerfile fs =
     (case dockerfile fs of
        Missing \<Rightarrow> ([], Inr None)
      | Unreadable \<Rightarrow> ([], Inl (ReadError dockerfile_path))
      | Text content \<Rightarrow>
          (case re_search dockerfile_pattern content of
             Some m \<Rightarrow> ([], Inr (group1 m))
           | None \<Rightarrow> ([], Inr None)))"
  by (simp add: extract_version_from_dockerfile_def exists_def read_text_def io_bind_def
      io_return_def split: artifact.splits option.splits)

lemma extract_version_from_github_workflow_cases:
  "extract_version_from_github_workflow fs =
     (case workflow_file fs of
        Missing \<Rightarrow> ([], Inr None)
      | Unreadable \<Rightarrow> ([], Inl (ReadError workflow_path))
      | Text content \<Rightarrow>
          (case re_search workflow_pattern content of
             Some m \<Rightarrow> ([], Inr (group1 m))
           | None \<Rightarrow> ([], Inr None)))"
  by (simp add: extract_version_from_github_workflow_def exists_def read_text_def io_bind_def
      io_return_def split: artifact.splits option.splits)

text \<open>An extractor that returns a version has printed nothing.\<close>

lemma init_found_silent:
  "snd (extract_version_from_init fs) = Inr (Some v) \<Longrightarrow> fst (extract_version_from_init fs) = []"
  by (auto simp: extract_version_from_init_cases split: artifact.splits option.splits)

lemma pyproject_found_silent:
  "snd (extract_version_from_pyproject fs) = Inr (Some v) \<Longrightarrow>
   fst (extract_version_from_pyproject fs) = []"
  by (auto simp: extract_version_from_pyproject_cases split: artifact.splits option.splits)

lemma setup_found_silent:
  "snd (extract_version_from_setup fs) = Inr (Some v) \<Longrightarrow>
   fst (extract_version_from_setup fs) = []"
  by (auto simp: extract_version_from_setup_cases init_found_silent
      split: artifact.splits option.splits if_splits)

lemma dockerfile_silent: "fst (extract_version_from_dockerfile fs) = []"
  by (simp add: extract_version_from_dockerfile_cases split: artifact.splits option.splits)

lemma github_workflow_silent: "fst (extract_version_from_github_workflow fs) = []"
  by (simp add: extract_version_from_github_workflow_cases split: artifact.splits option.splits)

lemma init_lines: "set (fst (extract_version_from_init fs)) \<subseteq> extractor_lines"
  by (simp add: extract_version_from_init_cases extractor_lines_def
      split: artifact.splits option.splits)

lemma pyproject_lines: "set (fst (extract_version_from_pyproject fs)) \<subseteq> extractor_lines"
  by (simp add: extract_version_from_pyproject_cases extractor_lines_def
      split: artifact.splits option.splits)

lemma setup_lines: "set (fst (extract_version_from_setup fs)) \<subseteq> extractor_lines"
  using init_lines [of fs]
  by (simp add: extract_version_from_setup_cases split: artifact.splits option.splits)

lemma io_bind_lines:
  assumes "set (fst m) \<subseteq> L" and "\<And>a. set (fst (f a)) \<subseteq> L"
  shows "set (fst (io_bind m f)) \<subseteq> L"
  using assms by (simp add: io_bind_def split: sum.splits)

lemma main_versions_lines: "set (fst (main_versions fs)) \<subseteq> extractor_lines"
  unfolding main_versions_def
  by (intro io_bind_lines init_lines pyproject_lines setup_lines)
     (simp_all add: dockerfile_silent github_workflow_silent io_return_def)

lemma main_versions_Inr:
  "snd (main_versions fs) = Inr versions \<longleftrightarrow>
    (\<exists>v1 v2 v3 v4 v5.
       snd (extract_version_from_init fs) = Inr v1 \<and>
       snd (extract_version_from_pyproject fs) = Inr v2 \<and>
       snd (extract_version_from_setup fs) = Inr v3 \<and>
       snd (extract_version_from_dockerfile fs) = Inr v4 \<and>
       snd (extract_version_from_github_workflow fs) = Inr v5 \<and>
       versions = [(''__init__.py'', v1), (''pyproject.toml'', v2), (''setup.py'', v3),
                   (''Dockerfile'', v4), (''GitHub workflow'', v5)])"
  by (auto simp: main_versions_def io_bind_def io_return_def split: sum.splits)

lemma main_versions_eq:
  assumes "snd (extract_version_from_init fs) = Inr v1"
    and "snd (extract_version_from_pyproject fs) = Inr v2"
    and "snd (extract_version_from_setup fs) = Inr v3"
    and "snd (extract_version_from_dockerfile fs) = Inr v4"
    and "snd (extract_version_from_github_workflow fs) = Inr v5"
  shows "main_versions fs =
    (fst (extract_version_from_init fs) @ fst (extract_version_from_pyproject fs)
      @ fst (extract_version_from_setup fs),
     Inr [(''__init__.py'', v1), (''pyproject.toml'', v2), (''setup.py'', v3),
          (''Dockerfile'', v4), (''GitHub workflow'', v5)])"
  using assms
  by (simp add: main_versions_def io_bind_def io_return_def dockerfile_silent
      github_workflow_silent)


section \<open>Version mismatch\<close>

text \<open>
  C1. Whenever the versions that the extractors found hold more than one distinct value,
  \<^verbatim>\<open>main\<close> returns 1, and for every artifact that contributed a value the report has
  the line \<^verbatim>\<open>   name: value\<close> made from that artifact's name and its value.
\<close>
theorem mismatch_is_failure:
  assumes "snd (main_versions fs) = Inr versions"
    and "1 < card (set (map snd (found_versions versions)))"
  shows "snd (main fs) = Inr 1 \<and>
    (\<forall>name v. (name, Some v) \<in> set versions \<longrightarrow>
       ''   '' @ name @ '': '' @ v \<in> set (fst (main fs)))"
proof -
  have "\<And>name v. (name, Some v) \<in> set versions \<Longrightarrow>
      ''   '' @ name @ '': '' @ v \<in> mismatch_line ` set (found_versions versions)"
    by (rule image_eqI [where x = "(name, v)" for name v])
       (simp_all add: mismatch_line_def found_versions_iff)
  then show ?thesis
    by (simp add: main_of_versions [OF assms(1)] verdict_mismatch [OF assms(2)])
qed

lemma scenario_B_versions:
  "main_versions scenario_B =
     ([], Inr [(''__init__.py'', Some ''1.2.3''), (''pyproject.toml'', Some ''1.2.4''),
               (''setup.py'', None), (''Dockerfile'', None), (''GitHub workflow'', None)])"
  by code_simp

theorem mismatch_is_failure_witness:
  "snd (main_versions scenario_B) =
     Inr [(''__init__.py'', Some ''1.2.3''), (''pyproject.toml'', Some ''1.2.4''),
          (''setup.py'', None), (''Dockerfile'', None), (''GitHub workflow'', None)] \<and>
   1 < card (set (map snd (found_versions
         [(''__init__.py'', Some ''1.2.3''), (''pyproject.toml'', Some ''1.2.4''),
          (''setup.py'', None), (''Dockerfile'', None), (''GitHub workflow'', None)]))) \<and>
   snd (main scenario_B) = Inr 1 \<and>
   ''   __init__.py: 1.2.3'' \<in> set (fst (main scenario_B)) \<and>
   ''   pyproject.toml: 1.2.4'' \<in> set (fst (main scenario_B))"
proof -
  let ?vs = "[(''__init__.py'', Some ''1.2.3''), (''pyproject.toml'', Some ''1.2.4''),
          (''setup.py'', None), (''Dockerfile'', None), (''GitHub workflow'', None)]"
  have h1: "snd (main_versions scenario_B) = Inr ?vs"
    by (simp add: scenario_B_versions)
  have h2: "1 < card (set (map snd (found_versions ?vs)))"
    by (simp add: found_versions_def)
  from mismatch_is_failure [OF h1 h2] have
    c: "snd (main scenario_B) = Inr 1"
    and l: "\<And>name v. (name, Some v) \<in> set ?vs \<Longrightarrow>
       ''   '' @ name @ '': '' @ v \<in> set (fst (main scenario_B))"
    by blast+
  have "''   '' @ ''__init__.py'' @ '': '' @ ''1.2.3'' \<in> set (fst (main scenario_B))"
    by (rule l) simp
  moreover have "''   '' @ ''pyproject.toml'' @ '': '' @ ''1.2.4'' \<in> set (fst (main scenario_B))"
    by (rule l) simp
  ultimately show ?thesis using h1 h2 c by simp
qed


section \<open>The format gate\<close>

text \<open>
  The gate of \<^verbatim>\<open>main\<close> is the script's validator: whenever the versions found agree
  on one value \<open>v\<close> and \<^verbatim>\<open>validate_version_format\<close> rejects \<open>v\<close>, \<^verbatim>\<open>main\<close>
  returns 1 and prints the invalid-format line, whichever artifacts contributed \<open>v\<close>
  and however many.
\<close>

lemma invalid_format_is_failure:
  assumes "snd (main_versions fs) = Inr versions"
    and "set (map snd (found_versions versions)) = {v}"
    and "\<not> validate_version_format v"
  shows "snd (main fs) = Inr 1 \<and>
    cross_mark @ '' Invalid version format: '' @ v \<in> set (fst (main fs))"
  using assms(3)
  by (simp add: main_of_versions [OF assms(1)] verdict_single [OF assms(2)])

lemma scenario_C_versions:
  "main_versions scenario_C =
     ([], Inr [(''__init__.py'', Some ''1.2''), (''pyproject.toml'', Some ''1.2''),
               (''setup.py'', None), (''Dockerfile'', None), (''GitHub workflow'', None)])"
  by code_simp

lemma not_semver_1_2: "\<not> validate_version_format ''1.2''"
  by code_simp

lemma invalid_format_is_failure_scenario_C:
  "snd (main_versions scenario_C) =
     Inr [(''__init__.py'', Some ''1.2''), (''pyproject.toml'', Some ''1.2''),
          (''setup.py'', None), (''Dockerfile'', None), (''GitHub workflow'', None)] \<and>
   set (map snd (found_versions
         [(''__init__.py'', Some ''1.2''), (''pyproject.toml'', Some ''1.2''),
          (''setup.py'', None), (''Dockerfile'', None), (''GitHub workflow'', None)])) = {''1.2''} \<and>
   \<not> validate_version_format ''1.2'' \<and>
   snd (main scenario_C) = Inr 1 \<and>
   cross_mark @ '' Invalid version format: 1.2'' \<in> set (fst (main scenario_C))"
proof -
  let ?vs = "[(''__init__.py'', Some ''1.2''), (''pyproject.toml'', Some ''1.2''),
          (''setup.py'', None), (''Dockerfile'', None), (''GitHub workflow'', None)]"
  have h1: "snd (main_versions scenario_C) = Inr ?vs"
    by (simp add: scenario_C_versions)
  have h2: "set (map snd (found_versions ?vs)) = {''1.2''}"
    by (simp add: found_versions_def)
  show ?thesis
    using invalid_format_is_failure [OF h1 h2 not_semver_1_2] h1 h2 not_semver_1_2 by simp
qed

lemma validate_version_format_examples:
  "validate_version_format ''1.0.0''"
  "validate_version_format ''2.3.4-alpha.1''"
  "validate_version_format ''1.0.0+build.5''"
  "validate_version_format ''1.0.0-rc.1+exp.sha.abc''"
  "\<not> validate_version_format ''1.0''"
  "\<not> validate_version_format ''v1.0.0''"
  "\<not> validate_version_format ''1.0.0 ''"
  "\<not> validate_version_format ''1.0.0-''"
  by code_simp+

text \<open>
  C3. The validator is meant to accept a string only if the whole of it has the shape
  MAJOR.MINOR.PATCH with the optional suffixes. Its pattern ends in \<^verbatim>\<open>$\<close>, which
  Python also lets hold just before a line break that ends the string: the validator
  accepts \<^verbatim>\<open>1.0.0\<close> followed by a newline. Such a value reaches it from a file whose
  quotes enclose the line break, and \<^verbatim>\<open>main\<close> then reports success.
\<close>
theorem validator_accepts_trailing_newline:
  "validate_version_format (''1.0.0'' @ [newline]) \<and>
   main trailing_newline =
     ([checking_line, success_line (''1.0.0'' @ [newline]),
       found_in_line [''__init__.py'', ''pyproject.toml'']], Inr 0)"
  by code_simp


section \<open>The validator against the grammar\<close>

text \<open>
  The equation of \<open>rm\<close> for \<open>Star\<close> mentions \<open>rm\<close> on \<open>Star\<close> again; it is
  applied by hand below.
\<close>

declare rm.simps(9) [simp del]

lemma rm_consumes:
  "no_caret r \<Longrightarrow> (m \<in> set (rm r p) \<Longrightarrow> consumes r (snd p) (snd (fst m)))"
proof (induction r p arbitrary: m rule: rm.induct)
  case (1 p) then show ?case by (auto intro: consumes.intros)
next
  case (2 cs p) then show ?case
    by (cases p) (auto intro: consumes.intros split: list.splits if_splits)
next
  case (3 cs p) then show ?case
    by (cases p) (auto intro: consumes.intros split: list.splits if_splits)
next
  case (4 p) then show ?case by simp
next
  case (5 p) then show ?case by simp
next
  case (6 p) then show ?case by (auto intro: consumes.intros split: if_splits)
next
  case (7 a b p)
  from "7.prems" obtain x y where x: "x \<in> set (rm a p)" and y: "y \<in> set (rm b (fst x))"
    and m: "m = (fst y, later (snd x) (snd y))"
    by auto
  from "7.IH"(1) [OF _ x] "7.prems" have "consumes a (snd p) (snd (fst x))" by simp
  moreover from "7.IH"(2) [OF x _ y] "7.prems" have "consumes b (snd (fst x)) (snd (fst y))"
    by simp
  ultimately show ?case using m by (auto intro: consumes.intros)
next
  case (8 a b p)
  from "8.prems" have "m \<in> set (rm a p) \<or> m \<in> set (rm b p)" by simp
  then show ?case
  proof
    assume "m \<in> set (rm a p)"
    from "8.IH"(1) [OF _ this] "8.prems" show ?thesis by (simp add: c_Alt1)
  next
    assume "m \<in> set (rm b p)"
    from "8.IH"(2) [OF _ this] "8.prems" show ?thesis by (simp add: c_Alt2)
  qed
next
  case (9 a p)
  from "9.prems"(2) have "m \<in> set (concat (map (\<lambda>m. if length (snd (fst m)) < length (snd p)
                       then map (\<lambda>n. (fst n, later (snd m) (snd n))) (rm (Star a) (fst m))
                       else []) (rm a p)) @ [(p, None)])"
    by (subst (asm) rm.simps(9))
  then consider "m = (p, None)"
    | x y where "x \<in> set (rm a p)" "length (snd (fst x)) < length (snd p)"
        "y \<in> set (rm (Star a) (fst x))" "m = (fst y, later (snd x) (snd y))"
    by (auto split: if_splits)
  then show ?case
  proof cases
    case 1 then show ?thesis by (auto intro: consumes.intros)
  next
    case 2
    from "9.IH"(1) [OF _ 2(1)] "9.prems" have "consumes a (snd p) (snd (fst x))" by simp
    moreover from "9.IH"(2) [OF 2(1) 2(2) _ 2(3)] "9.prems"
    have "consumes (Star a) (snd (fst x)) (snd (fst y))" by simp
    ultimately show ?thesis using 2(2,4) by (auto intro: consumes.intros)
  qed
next
  case (10 a p)
  from "10.prems" obtain x where x: "x \<in> set (rm a p)" and m: "fst m = fst x" by auto
  from "10.IH" [OF _ x] "10.prems" show ?case by (simp add: m c_Grp)
qed

lemma rm_Seq_I:
  assumes "x \<in> set (rm a p)" and "y \<in> set (rm b (fst x))"
  shows "(fst y, later (snd x) (snd y)) \<in> set (rm (Seq a b) p)"
proof -
  have "(fst y, later (snd x) (snd y))
      \<in> (\<lambda>n. (fst n, later (snd x) (snd n))) ` set (rm b (fst x))"
    using assms(2) by (rule imageI)
  then show ?thesis using assms(1) by auto
qed

lemma rm_Star_I:
  assumes "x \<in> set (rm a p)" and "length (snd (fst x)) < length (snd p)"
    and "y \<in> set (rm (Star a) (fst x))"
  shows "(fst y, later (snd x) (snd y)) \<in> set (rm (Star a) p)"
proof -
  have "(fst y, later (snd x) (snd y))
      \<in> (\<lambda>n. (fst n, later (snd x) (snd n))) ` set (rm (Star a) (fst x))"
    using assms(3) by (rule imageI)
  then have "\<exists>m \<in> set (rm a p). length (snd (fst m)) < length (snd p) \<and>
      (fst y, later (snd x) (snd y))
        \<in> (\<lambda>n. (fst n, later (snd m) (snd n))) ` set (rm (Star a) (fst m))"
    using assms(1,2) by blast
  then show ?thesis by (subst rm.simps(9)) auto
qed

lemma consumes_rm:
  "consumes r s t \<Longrightarrow> no_caret r \<Longrightarrow> \<exists>m \<in> set (rm r (prev, s)). snd (fst m) = t"
proof (induction arbitrary: prev rule: consumes.induct)
  case (c_Seq a s t b u)
  from c_Seq.IH(1) [of prev] c_Seq.prems obtain x
    where x: "x \<in> set (rm a (prev, s))" "snd (fst x) = t" by auto
  from c_Seq.IH(2) [of "fst (fst x)"] c_Seq.prems obtain y
    where y: "y \<in> set (rm b (fst (fst x), t))" "snd (fst y) = u" by auto
  from x(2) have fx: "fst x = (fst (fst x), t)" by (simp add: prod_eq_iff)
  have "(fst y, later (snd x) (snd y)) \<in> set (rm (Seq a b) (prev, s))"
    using x(1) y(1) fx by (intro rm_Seq_I) simp_all
  then show ?case using y(2) by (intro bexI [of _ "(fst y, later (snd x) (snd y))"]) simp_all
next
  case (c_Star a s t u)
  from c_Star.IH(1) [of prev] c_Star.prems obtain x
    where x: "x \<in> set (rm a (prev, s))" "snd (fst x) = t" by auto
  from c_Star.IH(2) [of "fst (fst x)"] c_Star.prems obtain y
    where y: "y \<in> set (rm (Star a) (fst (fst x), t))" "snd (fst y) = u" by auto
  from x(2) have fx: "fst x = (fst (fst x), t)" by (simp add: prod_eq_iff)
  have "(fst y, later (snd x) (snd y)) \<in> set (rm (Star a) (prev, s))"
    using x y(1) fx c_Star.hyps(2) by (intro rm_Star_I) simp_all
  then show ?case using y(2) by (intro bexI [of _ "(fst y, later (snd x) (snd y))"]) simp_all
next
  case (c_Star0 a s)
  have "((prev, s), None) \<in> set (rm (Star a) (prev, s))"
    by (subst rm.simps(9)) simp
  then show ?case by (intro bexI [of _ "((prev, s), None)"]) simp_all
qed (auto split: if_splits)

inductive_cases consumes_EpsE: "consumes Eps s t"
inductive_cases consumes_CharsE: "consumes (Chars cs) s t"
inductive_cases consumes_EosE: "consumes Eos s t"
inductive_cases consumes_SeqE: "consumes (Seq a b) s t"
inductive_cases consumes_AltE: "consumes (Alt a b) s t"
inductive_cases consumes_StarE: "consumes (Star a) s t"

lemma consumes_Eps_iff: "consumes Eps s t \<longleftrightarrow> t = s"
  by (auto elim: consumes_EpsE intro: c_Eps)

lemma consumes_Chars_iff: "consumes (Chars cs) s t \<longleftrightarrow> (\<exists>c. in_class cs c \<and> s = c # t)"
  by (auto elim: consumes_CharsE intro: c_Chars)

lemma consumes_Eos_iff: "consumes Eos s t \<longleftrightarrow> t = s \<and> (s = [] \<or> s = [newline])"
  by (auto elim: consumes_EosE intro: c_Eos)

lemma consumes_Seq_iff:
  "consumes (Seq a b) s u \<longleftrightarrow> (\<exists>t. consumes a s t \<and> consumes b t u)"
  by (auto elim: consumes_SeqE intro: c_Seq)

lemma consumes_Alt_iff: "consumes (Alt a b) s t \<longleftrightarrow> consumes a s t \<or> consumes b s t"
  by (auto elim: consumes_AltE intro: c_Alt1 c_Alt2)

lemma consumes_Opt_iff: "consumes (Opt a) s t \<longleftrightarrow> consumes a s t \<or> t = s"
  by (simp add: Opt_def consumes_Alt_iff consumes_Eps_iff)

lemma consumes_lit: "consumes (lit w) s t \<longleftrightarrow> s = w @ t"
proof (induction w arbitrary: s)
  case Nil
  show ?case by (auto simp: lit_def seqs_def consumes_Eps_iff)
next
  case (Cons c w)
  have "consumes (lit (c # w)) s t \<longleftrightarrow> (\<exists>u. consumes (Chars [C c]) s u \<and> consumes (lit w) u t)"
    by (simp add: lit_def seqs_def consumes_Seq_iff)
  then show ?case by (auto simp: Cons.IH consumes_Chars_iff in_class_def)
qed

text \<open>A starred pattern whose rounds each take a non-empty word of a fixed kind.\<close>

lemma consumes_Star_words:
  assumes a: "\<And>s t. consumes a s t \<longleftrightarrow> (\<exists>w. A w \<and> s = w @ t)"
    and ne: "\<And>w. A w \<Longrightarrow> w \<noteq> []"
  shows "consumes (Star a) s t \<longleftrightarrow> (\<exists>ws. list_all A ws \<and> s = concat ws @ t)"
proof
  assume "consumes (Star a) s t"
  then show "\<exists>ws. list_all A ws \<and> s = concat ws @ t"
  proof (induction "Star a" s t rule: consumes.induct)
    case (c_Star0 s)
    have "list_all A [] \<and> s = concat [] @ s" by simp
    then show ?case by blast
  next
    case (c_Star s t u)
    from c_Star.hyps(1) a obtain w where w: "A w" "s = w @ t" by blast
    from c_Star.hyps(5) obtain ws where ws: "list_all A ws" "t = concat ws @ u" by blast
    from w ws have "list_all A (w # ws) \<and> s = concat (w # ws) @ u" by simp
    then show ?case by blast
  qed
next
  assume "\<exists>ws. list_all A ws \<and> s = concat ws @ t"
  then obtain ws where "list_all A ws" "s = concat ws @ t" by blast
  then show "consumes (Star a) s t"
  proof (induction ws arbitrary: s)
    case Nil
    then show ?case by (simp add: c_Star0)
  next
    case (Cons w ws)
    from Cons.prems have w: "A w" and rest: "list_all A ws" by simp_all
    have 1: "consumes a s (concat ws @ t)"
      using w Cons.prems(2) by (auto simp: a)
    have 2: "length (concat ws @ t) < length s"
      using ne [OF w] Cons.prems(2) by simp
    have 3: "consumes (Star a) (concat ws @ t) t"
      using Cons.IH [OF rest refl] .
    from 1 2 3 show ?case by (rule c_Star)
  qed
qed

lemma concat_singletons:
  "(\<exists>ws. list_all (\<lambda>w. \<exists>c. P c \<and> w = [c]) ws \<and> x = concat ws) \<longleftrightarrow> list_all P x"
proof
  assume "\<exists>ws. list_all (\<lambda>w. \<exists>c. P c \<and> w = [c]) ws \<and> x = concat ws"
  then obtain ws where "list_all (\<lambda>w. \<exists>c. P c \<and> w = [c]) ws" "x = concat ws" by blast
  then show "list_all P x"
    by (induction ws arbitrary: x) auto
next
  assume "list_all P x"
  then have "list_all (\<lambda>w. \<exists>c. P c \<and> w = [c]) (map (\<lambda>c. [c]) x) \<and> x = concat (map (\<lambda>c. [c]) x)"
    by (induction x) auto
  then show "\<exists>ws. list_all (\<lambda>w. \<exists>c. P c \<and> w = [c]) ws \<and> x = concat ws" by blast
qed

lemma consumes_Star_Chars:
  "consumes (Star (Chars cs)) s t \<longleftrightarrow> (\<exists>w. list_all (in_class cs) w \<and> s = w @ t)"
proof -
  have "consumes (Star (Chars cs)) s t \<longleftrightarrow>
      (\<exists>ws. list_all (\<lambda>w. \<exists>c. in_class cs c \<and> w = [c]) ws \<and> s = concat ws @ t)"
    by (rule consumes_Star_words) (auto simp: consumes_Chars_iff)
  also have "\<dots> \<longleftrightarrow> (\<exists>w. (\<exists>ws. list_all (\<lambda>w. \<exists>c. in_class cs c \<and> w = [c]) ws \<and> w = concat ws)
      \<and> s = w @ t)"
    by blast
  finally show ?thesis by (simp only: concat_singletons)
qed

lemma consumes_Plus_Chars:
  "consumes (Plus (Chars cs)) s t \<longleftrightarrow> (\<exists>w. w \<noteq> [] \<and> list_all (in_class cs) w \<and> s = w @ t)"
proof
  assume "consumes (Plus (Chars cs)) s t"
  then obtain c w where "in_class cs c" "list_all (in_class cs) w" "s = c # w @ t"
    by (auto simp: Plus_def consumes_Seq_iff consumes_Chars_iff consumes_Star_Chars)
  then have "c # w \<noteq> [] \<and> list_all (in_class cs) (c # w) \<and> s = (c # w) @ t" by simp
  then show "\<exists>w. w \<noteq> [] \<and> list_all (in_class cs) w \<and> s = w @ t" by blast
next
  assume "\<exists>w. w \<noteq> [] \<and> list_all (in_class cs) w \<and> s = w @ t"
  then obtain c w where "in_class cs c" "list_all (in_class cs) w" "s = c # w @ t"
    by (auto simp: neq_Nil_conv)
  then show "consumes (Plus (Chars cs)) s t"
    by (auto simp: Plus_def consumes_Seq_iff consumes_Chars_iff consumes_Star_Chars)
qed

lemma consumes_digits:
  "consumes (Plus (Chars [Digit])) s t \<longleftrightarrow> (\<exists>w. spec_digits w \<and> s = w @ t)"
proof -
  have "in_class [Digit] = is_digit"
    by (simp add: fun_eq_iff in_class_def)
  then show ?thesis by (simp add: consumes_Plus_Chars spec_digits_def)
qed

lemma consumes_ident: "consumes ident s t \<longleftrightarrow> (\<exists>w. spec_identifier w \<and> s = w @ t)"
proof -
  have "in_class [R CHR ''a'' CHR ''z'', R CHR ''A'' CHR ''Z'', R CHR ''0'' CHR ''9'',
      C CHR ''-''] = alnum_or_hyphen"
    by (auto simp: fun_eq_iff in_class_def alnum_or_hyphen_def)
  then show ?thesis by (simp add: ident_def consumes_Plus_Chars spec_identifier_def)
qed

lemma join_Cons: "join sep (x # xs) = x @ concat (map (\<lambda>y. sep @ y) xs)"
  by (induction xs arbitrary: x) simp_all

lemma spec_identifier_nonempty: "spec_identifier w \<Longrightarrow> w \<noteq> []"
  by (simp add: spec_identifier_def)

lemma dotted_words:
  "(\<exists>ws. list_all (\<lambda>w. \<exists>i. spec_identifier i \<and> w = ''.'' @ i) ws \<and> x = concat ws) \<longleftrightarrow>
   (\<exists>ids. list_all spec_identifier ids \<and> x = concat (map (\<lambda>y. ''.'' @ y) ids))"
proof
  assume "\<exists>ws. list_all (\<lambda>w. \<exists>i. spec_identifier i \<and> w = ''.'' @ i) ws \<and> x = concat ws"
  then obtain ws where "list_all (\<lambda>w. \<exists>i. spec_identifier i \<and> w = ''.'' @ i) ws"
    and "x = concat ws" by blast
  then show "\<exists>ids. list_all spec_identifier ids \<and> x = concat (map (\<lambda>y. ''.'' @ y) ids)"
  proof (induction ws arbitrary: x)
    case Nil
    then have "list_all spec_identifier [] \<and> x = concat (map (\<lambda>y. ''.'' @ y) [])" by simp
    then show ?case by (rule exI)
  next
    case (Cons w ws)
    from Cons.prems obtain i where i: "spec_identifier i" "w = ''.'' @ i" by auto
    from Cons.prems Cons.IH [OF _ refl] obtain ids
      where ids: "list_all spec_identifier ids" "concat ws = concat (map (\<lambda>y. ''.'' @ y) ids)"
      by auto
    have "list_all spec_identifier (i # ids) \<and> x = concat (map (\<lambda>y. ''.'' @ y) (i # ids))"
      using i ids Cons.prems(2) by simp
    then show ?case by blast
  qed
next
  assume "\<exists>ids. list_all spec_identifier ids \<and> x = concat (map (\<lambda>y. ''.'' @ y) ids)"
  then obtain ids where ids: "list_all spec_identifier ids"
    and x: "x = concat (map (\<lambda>y. ''.'' @ y) ids)" by blast
  have "list_all (\<lambda>w. \<exists>i. spec_identifier i \<and> w = ''.'' @ i) (map (\<lambda>y. ''.'' @ y) ids)"
    using ids by (induction ids) auto
  with x show "\<exists>ws. list_all (\<lambda>w. \<exists>i. spec_identifier i \<and> w = ''.'' @ i) ws \<and> x = concat ws"
    by blast
qed

lemma consumes_idents: "consumes idents s t \<longleftrightarrow> (\<exists>x. spec_identifiers x \<and> s = x @ t)"
proof -
  have step: "consumes (Seq (lit ''.'') ident) s t \<longleftrightarrow>
      (\<exists>w. (\<exists>i. spec_identifier i \<and> w = ''.'' @ i) \<and> s = w @ t)" for s t
    by (auto simp: consumes_Seq_iff consumes_lit consumes_ident)
  have star: "consumes (Star (Seq (lit ''.'') ident)) s t \<longleftrightarrow>
      (\<exists>ws. list_all (\<lambda>w. \<exists>i. spec_identifier i \<and> w = ''.'' @ i) ws \<and> s = concat ws @ t)"
    for s t
    by (rule consumes_Star_words [OF step]) auto
  have star': "consumes (Star (Seq (lit ''.'') ident)) s t \<longleftrightarrow>
      (\<exists>ids. list_all spec_identifier ids \<and> s = concat (map (\<lambda>y. ''.'' @ y) ids) @ t)"
    for s t
  proof -
    have "consumes (Star (Seq (lit ''.'') ident)) s t \<longleftrightarrow>
      (\<exists>x. (\<exists>ws. list_all (\<lambda>w. \<exists>i. spec_identifier i \<and> w = ''.'' @ i) ws \<and> x = concat ws)
         \<and> s = x @ t)"
      unfolding star by blast
    also have "\<dots> \<longleftrightarrow> (\<exists>x. (\<exists>ids. list_all spec_identifier ids \<and>
        x = concat (map (\<lambda>y. ''.'' @ y) ids)) \<and> s = x @ t)"
      by (simp only: dotted_words)
    finally show ?thesis by blast
  qed
  show ?thesis
  proof
    assume "consumes idents s t"
    then obtain i ids where i: "spec_identifier i" and ids: "list_all spec_identifier ids"
      and s: "s = i @ concat (map (\<lambda>y. ''.'' @ y) ids) @ t"
      by (auto simp: idents_def consumes_Seq_iff consumes_ident star')
    have "spec_identifiers (join ''.'' (i # ids))"
      unfolding spec_identifiers_def using i ids
      by (intro exI [of _ "i # ids"]) simp
    moreover have "s = join ''.'' (i # ids) @ t"
      using s by (simp add: join_Cons)
    ultimately show "\<exists>x. spec_identifiers x \<and> s = x @ t" by blast
  next
    assume "\<exists>x. spec_identifiers x \<and> s = x @ t"
    then obtain ids where ne: "ids \<noteq> []" and all: "list_all spec_identifier ids"
      and s: "s = join ''.'' ids @ t"
      by (auto simp: spec_identifiers_def)
    from ne obtain i rest where ids: "ids = i # rest" by (cases ids) auto
    have "consumes ident s (concat (map (\<lambda>y. ''.'' @ y) rest) @ t)"
      using all s ids by (auto simp: consumes_ident join_Cons)
    moreover have "consumes (Star (Seq (lit ''.'') ident)) (concat (map (\<lambda>y. ''.'' @ y) rest) @ t) t"
      using all ids by (auto simp: star')
    ultimately show "consumes idents s t"
      by (auto simp: idents_def consumes_Seq_iff)
  qed
qed

lemma consumes_suffix:
  "consumes (Opt (Seq (lit [sign]) idents)) s t \<longleftrightarrow> (\<exists>w. spec_suffix sign w \<and> s = w @ t)"
  by (auto simp: consumes_Opt_iff consumes_Seq_iff consumes_lit consumes_idents spec_suffix_def)

lemma semver_pattern_body: "semver_pattern = Seq Bos semver_body"
  by (simp add: semver_pattern_def semver_body_def seqs_def)

lemma no_caret_lit: "no_caret (lit w)"
  by (induction w) (simp_all add: lit_def seqs_def)

lemma no_caret_semver_body: "no_caret semver_body"
  by (simp add: semver_body_def seqs_def Plus_def Opt_def idents_def ident_def no_caret_lit)

lemma rm_nonempty_iff:
  assumes "no_caret r"
  shows "rm r (prev, s) \<noteq> [] \<longleftrightarrow> (\<exists>t. consumes r s t)"
proof
  assume "rm r (prev, s) \<noteq> []"
  then obtain m where "m \<in> set (rm r (prev, s))" by (cases "rm r (prev, s)") auto
  from rm_consumes [OF assms this] show "\<exists>t. consumes r s t" by auto
next
  assume "\<exists>t. consumes r s t"
  then obtain t where "consumes r s t" ..
  from consumes_rm [OF this assms, of prev] show "rm r (prev, s) \<noteq> []" by auto
qed

lemma validate_version_format_consumes:
  "validate_version_format s \<longleftrightarrow> (\<exists>t. consumes semver_body s t)"
proof -
  have "rm semver_pattern (None, s) = map (\<lambda>n. (fst n, later None (snd n))) (rm semver_body (None, s))"
    by (simp add: semver_pattern_body)
  moreover have "validate_version_format s \<longleftrightarrow> rm semver_pattern (None, s) \<noteq> []"
    by (simp add: validate_version_format_def re_match_def split: list.splits)
  ultimately have "validate_version_format s \<longleftrightarrow> rm semver_body (None, s) \<noteq> []"
    by simp
  then show ?thesis by (simp add: rm_nonempty_iff [OF no_caret_semver_body])
qed

lemma consumes_semver_body:
  "consumes semver_body s t \<longleftrightarrow>
     (\<exists>u. spec_semver u \<and> s = u @ t \<and> (t = [] \<or> t = [newline]))"
proof
  assume "consumes semver_body s t"
  then obtain major minor patch pre build
    where "spec_digits major" "spec_digits minor" "spec_digits patch"
      "spec_suffix CHR ''-'' pre" "spec_suffix CHR ''+'' build"
      "s = major @ ''.'' @ minor @ ''.'' @ patch @ pre @ build @ t" "t = [] \<or> t = [newline]"
    by (auto simp: semver_body_def seqs_def consumes_Seq_iff consumes_digits consumes_lit
        consumes_suffix consumes_Eos_iff consumes_Eps_iff)
  then have "spec_semver (major @ ''.'' @ minor @ ''.'' @ patch @ pre @ build) \<and>
      s = (major @ ''.'' @ minor @ ''.'' @ patch @ pre @ build) @ t \<and> (t = [] \<or> t = [newline])"
    unfolding spec_semver_def by (intro conjI exI [of _ major] exI [of _ minor]
        exI [of _ patch] exI [of _ pre] exI [of _ build]) simp_all
  then show "\<exists>u. spec_semver u \<and> s = u @ t \<and> (t = [] \<or> t = [newline])" by blast
next
  assume "\<exists>u. spec_semver u \<and> s = u @ t \<and> (t = [] \<or> t = [newline])"
  then obtain major minor patch pre build
    where p: "spec_digits major" "spec_digits minor" "spec_digits patch"
      "spec_suffix CHR ''-'' pre" "spec_suffix CHR ''+'' build"
      and s: "s = major @ ''.'' @ minor @ ''.'' @ patch @ pre @ build @ t"
      and t: "t = [] \<or> t = [newline]"
    by (auto simp: spec_semver_def)
  have 8: "consumes (Seq Eos Eps) t t"
    using t by (simp add: consumes_Seq_iff consumes_Eos_iff consumes_Eps_iff)
  have 7: "consumes (Opt (Seq (lit ''+'') idents)) (build @ t) t"
    using p(5) by (auto simp: consumes_suffix)
  have 6: "consumes (Opt (Seq (lit ''-'') idents)) (pre @ build @ t) (build @ t)"
    using p(4) by (auto simp: consumes_suffix)
  have 5: "consumes (Plus (Chars [Digit])) (patch @ pre @ build @ t) (pre @ build @ t)"
    using p(3) by (auto simp: consumes_digits)
  have 4: "consumes (lit ''.'') (''.'' @ patch @ pre @ build @ t) (patch @ pre @ build @ t)"
    by (simp add: consumes_lit)
  have 3: "consumes (Plus (Chars [Digit])) (minor @ ''.'' @ patch @ pre @ build @ t)
      (''.'' @ patch @ pre @ build @ t)"
    using p(2) by (auto simp: consumes_digits)
  have 2: "consumes (lit ''.'') (''.'' @ minor @ ''.'' @ patch @ pre @ build @ t)
      (minor @ ''.'' @ patch @ pre @ build @ t)"
    by (simp add: consumes_lit)
  have 1: "consumes (Plus (Chars [Digit])) s (''.'' @ minor @ ''.'' @ patch @ pre @ build @ t)"
    using p(1) s by (auto simp: consumes_digits)
  show "consumes semver_body s t"
    unfolding semver_body_def seqs_def foldr.simps o_apply id_apply
    by (intro c_Seq [OF 1] c_Seq [OF 2] c_Seq [OF 3] c_Seq [OF 4] c_Seq [OF 5] c_Seq [OF 6]
        c_Seq [OF 7]) (rule 8)
qed

text \<open>
  The validator accepts the strings of the grammar, and those strings followed by one
  line break, and nothing else.
\<close>

lemma validate_version_format_iff:
  "validate_version_format s \<longleftrightarrow>
     spec_semver s \<or> (\<exists>u. spec_semver u \<and> s = u @ [newline])"
  by (auto simp: validate_version_format_consumes consumes_semver_body)


lemma spec_semver_validates: "spec_semver v \<Longrightarrow> validate_version_format v"
  by (simp add: validate_version_format_iff)

lemma not_semver_two_newlines: "\<not> validate_version_format (''1.0.0'' @ [newline, newline])"
  by code_simp

lemma not_spec_semver_trailing_newline: "\<not> spec_semver (''1.0.0'' @ [newline])"
proof
  assume "spec_semver (''1.0.0'' @ [newline])"
  then have "validate_version_format ((''1.0.0'' @ [newline]) @ [newline])"
    by (subst validate_version_format_iff) blast
  with not_semver_two_newlines show False by simp
qed

lemma trailing_newline_versions:
  "main_versions trailing_newline =
     ([], Inr [(''__init__.py'', Some (''1.0.0'' @ [newline])),
               (''pyproject.toml'', Some (''1.0.0'' @ [newline])),
               (''setup.py'', None), (''Dockerfile'', None), (''GitHub workflow'', None)])"
  by code_simp

lemma trailing_newline_exit: "snd (main trailing_newline) = Inr 0"
  by code_simp

text \<open>
  C2. A unanimous value that fails the grammar is meant to make \<^verbatim>\<open>main\<close>
  return 1. The value \<^verbatim>\<open>1.0.0\<close> followed by a line break is not a string of the
  grammar, the validator accepts it all the same (C3), and with that value in both
  mandatory files \<^verbatim>\<open>main\<close> returns 0.
\<close>

theorem format_gate_passes_trailing_newline:
  "snd (main_versions trailing_newline) =
     Inr [(''__init__.py'', Some (''1.0.0'' @ [newline])),
          (''pyproject.toml'', Some (''1.0.0'' @ [newline])),
          (''setup.py'', None), (''Dockerfile'', None), (''GitHub workflow'', None)] \<and>
   set (map snd (found_versions
         [(''__init__.py'', Some (''1.0.0'' @ [newline])),
          (''pyproject.toml'', Some (''1.0.0'' @ [newline])),
          (''setup.py'', None), (''Dockerfile'', None), (''GitHub workflow'', None)]))
     = {''1.0.0'' @ [newline]} \<and>
   \<not> spec_semver (''1.0.0'' @ [newline]) \<and>
   snd (main trailing_newline) = Inr 0"
  using not_spec_semver_trailing_newline
  by (simp add: trailing_newline_versions trailing_newline_exit found_versions_def)

text \<open>
  For every other value the gate does what the claim says: a unanimous value that is
  neither a string of the grammar nor such a string followed by a line break makes
  \<^verbatim>\<open>main\<close> return 1 with the invalid-format line.
\<close>

lemma invalid_format_by_grammar:
  assumes "snd (main_versions fs) = Inr versions"
    and "set (map snd (found_versions versions)) = {v}"
    and "\<not> spec_semver v"
    and "\<And>u. spec_semver u \<Longrightarrow> v \<noteq> u @ [newline]"
  shows "snd (main fs) = Inr 1 \<and>
    cross_mark @ '' Invalid version format: '' @ v \<in> set (fst (main fs))"
proof -
  have "\<not> validate_version_format v"
    using assms(3,4) by (auto simp: validate_version_format_iff)
  then show ?thesis
    by (simp add: main_of_versions [OF assms(1)] verdict_single [OF assms(2)])
qed


section \<open>The mandatory artifacts\<close>

lemma missing_files_cases:
  "missing_files versions =
     (if ''__init__.py'' \<notin> fst ` set (found_versions versions)
      then if ''pyproject.toml'' \<notin> fst ` set (found_versions versions)
           then [''__init__.py'', ''pyproject.toml''] else [''__init__.py'']
      else if ''pyproject.toml'' \<notin> fst ` set (found_versions versions)
           then [''pyproject.toml''] else [])"
  by (simp add: missing_files_def required_files_def)

text \<open>
  C4. Whenever the versions found agree on one value that the validator accepts, and
  \<^verbatim>\<open>__init__.py\<close> or \<^verbatim>\<open>pyproject.toml\<close> is not among the artifacts that contributed,
  \<^verbatim>\<open>main\<close> returns 1 and its last line names exactly the mandatory artifacts that did
  not contribute.
\<close>
theorem missing_mandatory_is_failure:
  assumes "snd (main_versions fs) = Inr versions"
    and "set (map snd (found_versions versions)) = {v}"
    and "validate_version_format v"
    and "''__init__.py'' \<notin> fst ` set (found_versions versions) \<or>
         ''pyproject.toml'' \<notin> fst ` set (found_versions versions)"
  shows "snd (main fs) = Inr 1 \<and>
    last (fst (main fs)) =
      cross_mark @ '' Version missing from required files: '' @
        (if ''__init__.py'' \<in> fst ` set (found_versions versions) then ''pyproject.toml''
         else if ''pyproject.toml'' \<in> fst ` set (found_versions versions) then ''__init__.py''
         else ''__init__.py, pyproject.toml'')"
  using assms(3,4)
  by (auto simp: main_of_versions [OF assms(1)] verdict_single [OF assms(2)]
      missing_files_cases missing_line_def)

lemma scenario_D_versions:
  "main_versions scenario_D =
     ([pyproject_not_found_line],
      Inr [(''__init__.py'', Some ''1.0.0''), (''pyproject.toml'', None),
           (''setup.py'', None), (''Dockerfile'', None), (''GitHub workflow'', None)])"
  by code_simp

lemma semver_1_0_0: "validate_version_format ''1.0.0''"
  by code_simp

theorem missing_mandatory_is_failure_witness:
  "snd (main_versions scenario_D) =
     Inr [(''__init__.py'', Some ''1.0.0''), (''pyproject.toml'', None),
          (''setup.py'', None), (''Dockerfile'', None), (''GitHub workflow'', None)] \<and>
   set (map snd (found_versions
         [(''__init__.py'', Some ''1.0.0''), (''pyproject.toml'', None),
          (''setup.py'', None), (''Dockerfile'', None), (''GitHub workflow'', None)])) = {''1.0.0''} \<and>
   validate_version_format ''1.0.0'' \<and>
   ''pyproject.toml'' \<notin> fst ` set (found_versions
         [(''__init__.py'', Some ''1.0.0''), (''pyproject.toml'', None),
          (''setup.py'', None), (''Dockerfile'', None), (''GitHub workflow'', None)]) \<and>
   snd (main scenario_D) = Inr 1 \<and>
   last (fst (main scenario_D)) =
     cross_mark @ '' Version missing from required files: pyproject.toml''"
proof -
  let ?vs = "[(''__init__.py'', Some ''1.0.0''), (''pyproject.toml'', None),
          (''setup.py'', None), (''Dockerfile'', None), (''GitHub workflow'', None)]"
  have h1: "snd (main_versions scenario_D) = Inr ?vs"
    by (simp add: scenario_D_versions)
  have h2: "set (map snd (found_versions ?vs)) = {''1.0.0''}"
    by (simp add: found_versions_def)
  have h3: "''pyproject.toml'' \<notin> fst ` set (found_versions ?vs)"
    by (simp add: found_versions_def)
  have h4: "''__init__.py'' \<in> fst ` set (found_versions ?vs)"
    by (simp add: found_versions_def)
  from h3 have h3': "''__init__.py'' \<notin> fst ` set (found_versions ?vs) \<or>
         ''pyproject.toml'' \<notin> fst ` set (found_versions ?vs)" ..
  show ?thesis
    using missing_mandatory_is_failure [OF h1 h2 semver_1_0_0 h3'] h1 h2 h3 h4 semver_1_0_0
    by simp
qed


section \<open>Mismatch is reported first\<close>

text \<open>No line of a mismatch report is the line that reports a missing mandatory file.\<close>

lemma extractor_lines_not_missing: "missing_line names \<notin> extractor_lines"
  by (simp add: extractor_lines_def missing_line_def init_not_found_line_def
      init_no_version_line_def pyproject_not_found_line_def pyproject_no_version_line_def)

lemma mismatch_report_not_missing:
  "missing_line names \<notin> set (fst (main_verdict versions))"
  if "1 < card (set (map snd (found_versions versions)))"
  by (auto simp: verdict_mismatch [OF that] missing_line_def mismatch_header_def
      mismatch_line_def cross_mark_def light_bulb_def)

text \<open>
  C5. Whenever the versions found disagree and a mandatory artifact did not contribute,
  \<^verbatim>\<open>main\<close> returns 1 with the mismatch report, and no line of its output is the
  line that reports a mandatory artifact as missing.
\<close>
theorem mismatch_reported_before_missing:
  assumes "snd (main_versions fs) = Inr versions"
    and "1 < card (set (map snd (found_versions versions)))"
    and "''__init__.py'' \<notin> fst ` set (found_versions versions) \<or>
         ''pyproject.toml'' \<notin> fst ` set (found_versions versions)"
  shows "snd (main fs) = Inr 1 \<and>
    cross_mark @ '' Version mismatch detected:'' \<in> set (fst (main fs)) \<and>
    (\<forall>names. cross_mark @ '' Version missing from required files: '' @ names
       \<notin> set (fst (main fs)))"
proof -
  have a: "missing_line names \<notin> set (fst (main_versions fs))" for names
    using main_versions_lines [of fs] extractor_lines_not_missing [of names] by blast
  have b: "missing_line names \<noteq> checking_line" for names
    by (simp add: missing_line_def checking_line_def cross_mark_def magnifier_def)
  have "missing_line names \<notin> set (fst (main fs))" for names
    using a [of names] b [of names] mismatch_report_not_missing [OF assms(2), of names]
    by (simp add: main_of_versions [OF assms(1)])
  then have "\<forall>names. cross_mark @ '' Version missing from required files: '' @ names
       \<notin> set (fst (main fs))"
    by (simp add: missing_line_def)
  moreover have "snd (main fs) = Inr 1 \<and>
    cross_mark @ '' Version mismatch detected:'' \<in> set (fst (main fs))"
    by (simp add: main_of_versions [OF assms(1)] verdict_mismatch [OF assms(2)]
        mismatch_header_def)
  ultimately show ?thesis by blast
qed

lemma disagreeing_and_incomplete_versions:
  "main_versions disagreeing_and_incomplete =
     ([pyproject_not_found_line],
      Inr [(''__init__.py'', Some ''1.2.3''), (''pyproject.toml'', None),
           (''setup.py'', None), (''Dockerfile'', None), (''GitHub workflow'', Some ''3.11'')])"
  by code_simp

theorem mismatch_reported_before_missing_witness:
  "snd (main_versions disagreeing_and_incomplete) =
     Inr [(''__init__.py'', Some ''1.2.3''), (''pyproject.toml'', None),
          (''setup.py'', None), (''Dockerfile'', None), (''GitHub workflow'', Some ''3.11'')] \<and>
   1 < card (set (map snd (found_versions
         [(''__init__.py'', Some ''1.2.3''), (''pyproject.toml'', None),
          (''setup.py'', None), (''Dockerfile'', None), (''GitHub workflow'', Some ''3.11'')]))) \<and>
   ''pyproject.toml'' \<notin> fst ` set (found_versions
         [(''__init__.py'', Some ''1.2.3''), (''pyproject.toml'', None),
          (''setup.py'', None), (''Dockerfile'', None), (''GitHub workflow'', Some ''3.11'')]) \<and>
   snd (main disagreeing_and_incomplete) = Inr 1 \<and>
   cross_mark @ '' Version mismatch detected:'' \<in> set (fst (main disagreeing_and_incomplete)) \<and>
   cross_mark @ '' Version missing from required files: pyproject.toml''
     \<notin> set (fst (main disagreeing_and_incomplete))"
proof -
  let ?vs = "[(''__init__.py'', Some ''1.2.3''), (''pyproject.toml'', None),
          (''setup.py'', None), (''Dockerfile'', None), (''GitHub workflow'', Some ''3.11'')]"
  have h1: "snd (main_versions disagreeing_and_incomplete) = Inr ?vs"
    by (simp add: disagreeing_and_incomplete_versions)
  have h2: "1 < card (set (map snd (found_versions ?vs)))"
    by (simp add: found_versions_def)
  have h3: "''pyproject.toml'' \<notin> fst ` set (found_versions ?vs)"
    by (simp add: found_versions_def)
  from h3 have h3': "''__init__.py'' \<notin> fst ` set (found_versions ?vs) \<or>
         ''pyproject.toml'' \<notin> fst ` set (found_versions ?vs)" ..
  from mismatch_reported_before_missing [OF h1 h2 h3'] have
    c: "snd (main disagreeing_and_incomplete) = Inr 1"
    and m: "cross_mark @ '' Version mismatch detected:'' \<in> set (fst (main disagreeing_and_incomplete))"
    and n: "\<And>names. cross_mark @ '' Version missing from required files: '' @ names
       \<notin> set (fst (main disagreeing_and_incomplete))"
    by blast+
  from n [of "''pyproject.toml''"] show ?thesis using h1 h2 h3 c m by simp
qed


section \<open>Absent optional artifacts\<close>


lemma optional_missing_returns_nothing:
  "setup_file fs = Missing \<Longrightarrow> extract_version_from_setup fs = ([], Inr None)"
  "dockerfile fs = Missing \<Longrightarrow> extract_version_from_dockerfile fs = ([], Inr None)"
  "workflow_file fs = Missing \<Longrightarrow> extract_version_from_github_workflow fs = ([], Inr None)"
  by (simp_all add: extract_version_from_setup_cases extract_version_from_dockerfile_cases
      extract_version_from_github_workflow_cases)

lemma setup_silent_when_init_found:
  assumes "snd (extract_version_from_init fs) = Inr (Some v)"
  shows "fst (extract_version_from_setup fs) = []"
  using init_found_silent [OF assms]
  by (simp add: extract_version_from_setup_cases split: artifact.splits option.splits)

lemma optional_outcome:
  assumes "snd e = Inr None \<or> snd e = Inr (Some v)" and "fst e = []"
  shows "e = ([], Inr (if snd e = Inr None then None else Some v))"
  using assms by (auto simp: prod_eq_iff)

text \<open>
  C6. When the two mandatory artifacts yield the same value \<open>v\<close>, the validator accepts
  \<open>v\<close> (as it does every string of the grammar), and each optional extractor returns
  either nothing or \<open>v\<close>, then \<^verbatim>\<open>main\<close> returns 0 and prints three lines: the
  opening line, the success line and the list of the artifacts that contributed. An
  absent optional artifact returns nothing and prints nothing, and so does a present
  one in which the pattern is not found: neither adds a line nor changes the result,
  it is only left out of the list.
\<close>

theorem optional_absence_is_silent:
  assumes i: "snd (extract_version_from_init fs) = Inr (Some v)"
    and p: "snd (extract_version_from_pyproject fs) = Inr (Some v)"
    and ok: "validate_version_format v"
    and s: "snd (extract_version_from_setup fs) = Inr None \<or>
            snd (extract_version_from_setup fs) = Inr (Some v)"
    and d: "snd (extract_version_from_dockerfile fs) = Inr None \<or>
            snd (extract_version_from_dockerfile fs) = Inr (Some v)"
    and w: "snd (extract_version_from_github_workflow fs) = Inr None \<or>
            snd (extract_version_from_github_workflow fs) = Inr (Some v)"
  shows "main fs =
    ([checking_line, success_line v,
      found_in_line ([''__init__.py'', ''pyproject.toml'']
        @ (if snd (extract_version_from_setup fs) = Inr None then [] else [''setup.py''])
        @ (if snd (extract_version_from_dockerfile fs) = Inr None then [] else [''Dockerfile''])
        @ (if snd (extract_version_from_github_workflow fs) = Inr None then []
           else [''GitHub workflow'']))],
     Inr 0)"
proof -
  let ?v3 = "if snd (extract_version_from_setup fs) = Inr None then None else Some v"
  let ?v4 = "if snd (extract_version_from_dockerfile fs) = Inr None then None else Some v"
  let ?v5 = "if snd (extract_version_from_github_workflow fs) = Inr None then None else Some v"
  let ?vs = "[(''__init__.py'', Some v), (''pyproject.toml'', Some v), (''setup.py'', ?v3),
              (''Dockerfile'', ?v4), (''GitHub workflow'', ?v5)]"
  have e3: "extract_version_from_setup fs = ([], Inr ?v3)"
    using s setup_silent_when_init_found [OF i] by (rule optional_outcome)
  have e4: "extract_version_from_dockerfile fs = ([], Inr ?v4)"
    using d dockerfile_silent by (rule optional_outcome)
  have e5: "extract_version_from_github_workflow fs = ([], Inr ?v5)"
    using w github_workflow_silent by (rule optional_outcome)
  have r3: "snd (extract_version_from_setup fs) = Inr ?v3"
    by (subst e3) simp
  have r4: "snd (extract_version_from_dockerfile fs) = Inr ?v4"
    by (subst e4) simp
  have r5: "snd (extract_version_from_github_workflow fs) = Inr ?v5"
    by (subst e5) simp
  have vs: "main_versions fs = ([], Inr ?vs)"
    using main_versions_eq [OF i p r3 r4 r5]
    by (simp add: init_found_silent [OF i] pyproject_found_silent [OF p]
        setup_silent_when_init_found [OF i])
  have single: "set (map snd (found_versions ?vs)) = {v}"
    by (auto simp: found_versions_def)
  have none_missing: "missing_files ?vs = []"
    by (simp add: missing_files_cases) (simp add: found_versions_def)
  have names: "map fst (found_versions ?vs) = [''__init__.py'', ''pyproject.toml'']
        @ (if snd (extract_version_from_setup fs) = Inr None then [] else [''setup.py''])
        @ (if snd (extract_version_from_dockerfile fs) = Inr None then [] else [''Dockerfile''])
        @ (if snd (extract_version_from_github_workflow fs) = Inr None then []
           else [''GitHub workflow''])"
    by (simp add: found_versions_def)
  have "main fs = (checking_line # fst (main_verdict ?vs), snd (main_verdict ?vs))"
    using main_of_versions [of fs ?vs] by (simp add: vs)
  also have "main_verdict ?vs =
      ([success_line v, found_in_line (map fst (found_versions ?vs))], Inr 0)"
    using verdict_single [OF single] ok none_missing by simp
  finally show ?thesis by (simp add: names)
qed

lemma semver_1_2_3: "validate_version_format ''1.2.3''"
  by code_simp

lemma plain_workflow_results:
  "extract_version_from_init plain_workflow = ([], Inr (Some ''1.2.3''))"
  "extract_version_from_pyproject plain_workflow = ([], Inr (Some ''1.2.3''))"
  "extract_version_from_github_workflow plain_workflow = ([], Inr None)"
  by code_simp+

lemma plain_workflow_files:
  "setup_file plain_workflow = Missing" "dockerfile plain_workflow = Missing"
  "workflow_file plain_workflow = Text (''name: CI'' @ [newline])"
  by (simp_all add: plain_workflow_def scenario_A_def project_def)

theorem optional_absence_is_silent_witness:
  "snd (extract_version_from_init plain_workflow) = Inr (Some ''1.2.3'') \<and>
   snd (extract_version_from_pyproject plain_workflow) = Inr (Some ''1.2.3'') \<and>
   validate_version_format ''1.2.3'' \<and>
   setup_file plain_workflow = Missing \<and>
   snd (extract_version_from_setup plain_workflow) = Inr None \<and>
   dockerfile plain_workflow = Missing \<and>
   snd (extract_version_from_dockerfile plain_workflow) = Inr None \<and>
   workflow_file plain_workflow = Text (''name: CI'' @ [newline]) \<and>
   snd (extract_version_from_github_workflow plain_workflow) = Inr None \<and>
   main plain_workflow =
     ([checking_line, success_line ''1.2.3'', found_in_line [''__init__.py'', ''pyproject.toml'']],
      Inr 0)"
proof -
  have i: "snd (extract_version_from_init plain_workflow) = Inr (Some ''1.2.3'')"
    and p: "snd (extract_version_from_pyproject plain_workflow) = Inr (Some ''1.2.3'')"
    and w0: "snd (extract_version_from_github_workflow plain_workflow) = Inr None"
    by (simp_all add: plain_workflow_results)
  have s0: "snd (extract_version_from_setup plain_workflow) = Inr None"
    and d0: "snd (extract_version_from_dockerfile plain_workflow) = Inr None"
    by (simp_all add: optional_missing_returns_nothing plain_workflow_files)
  from s0 have s: "snd (extract_version_from_setup plain_workflow) = Inr None \<or>
      snd (extract_version_from_setup plain_workflow) = Inr (Some ''1.2.3'')" ..
  from d0 have d: "snd (extract_version_from_dockerfile plain_workflow) = Inr None \<or>
      snd (extract_version_from_dockerfile plain_workflow) = Inr (Some ''1.2.3'')" ..
  from w0 have w: "snd (extract_version_from_github_workflow plain_workflow) = Inr None \<or>
      snd (extract_version_from_github_workflow plain_workflow) = Inr (Some ''1.2.3'')" ..
  show ?thesis
    using optional_absence_is_silent [OF i p semver_1_2_3 s d w] i p semver_1_2_3 s0 d0 w0
    by (simp add: plain_workflow_files)
qed

section \<open>The exit status\<close>

lemma verdict_zero_iff:
  "snd (main_verdict versions) = Inr 0 \<longleftrightarrow>
     found_versions versions \<noteq> [] \<and>
     card (set (map snd (found_versions versions))) \<le> 1 \<and>
     (\<forall>v \<in> set (map snd (found_versions versions)). validate_version_format v) \<and>
     {''__init__.py'', ''pyproject.toml''} \<subseteq> fst ` set (found_versions versions)"
proof (cases "found_versions versions = []")
  case True
  then show ?thesis by (simp add: main_verdict_def print_then_def)
next
  case False
  show ?thesis
  proof (cases "1 < card (set (map snd (found_versions versions)))")
    case True
    then show ?thesis by (simp add: verdict_mismatch)
  next
    case small: False
    from False have "card (set (map snd (found_versions versions))) \<noteq> 0" by simp
    with small have "card (set (map snd (found_versions versions))) = 1" by linarith
    then obtain v where v: "set (map snd (found_versions versions)) = {v}"
      by (auto simp: card_1_singleton_iff)
    show ?thesis
      using False v by (auto simp: verdict_single [OF v] missing_files_cases)
  qed
qed

text \<open>
  The exit status in terms of the script's own checks: it is 0 when the extractors all
  returned, at least one of them found a value, the values found are all the same, the
  validator accepts it and both mandatory artifacts contributed; it is 1 in every
  other case.
\<close>

lemma exit_code_zero_iff:
  "script_exit_code fs =
     (if \<exists>versions. snd (main_versions fs) = Inr versions \<and>
           found_versions versions \<noteq> [] \<and>
           card (set (map snd (found_versions versions))) \<le> 1 \<and>
           (\<forall>v \<in> set (map snd (found_versions versions)). validate_version_format v) \<and>
           {''__init__.py'', ''pyproject.toml''} \<subseteq> fst ` set (found_versions versions)
      then 0 else 1)"
proof (cases "snd (main_versions fs)")
  case (Inl e)
  then show ?thesis by (simp add: script_exit_code_def main_of_raise)
next
  case (Inr versions)
  have "script_exit_code fs = (if snd (main_verdict versions) = Inr 0 then 0 else 1)"
    using verdict_code [of versions]
    by (auto simp: script_exit_code_def main_of_versions [OF Inr])
  then show ?thesis
    using Inr verdict_zero_iff [of versions] by simp
qed

lemma scenario_A_versions:
  "main_versions scenario_A =
     ([], Inr [(''__init__.py'', Some ''1.2.3''), (''pyproject.toml'', Some ''1.2.3''),
               (''setup.py'', None), (''Dockerfile'', None), (''GitHub workflow'', None)])"
  by code_simp

lemma exit_code_zero_iff_scenario_A:
  "(\<exists>versions. snd (main_versions scenario_A) = Inr versions \<and>
       found_versions versions \<noteq> [] \<and>
       card (set (map snd (found_versions versions))) \<le> 1 \<and>
       (\<forall>v \<in> set (map snd (found_versions versions)). validate_version_format v) \<and>
       {''__init__.py'', ''pyproject.toml''} \<subseteq> fst ` set (found_versions versions)) \<and>
   script_exit_code scenario_A = 0"
proof -
  have ex: "\<exists>versions. snd (main_versions scenario_A) = Inr versions \<and>
       found_versions versions \<noteq> [] \<and>
       card (set (map snd (found_versions versions))) \<le> 1 \<and>
       (\<forall>v \<in> set (map snd (found_versions versions)). validate_version_format v) \<and>
       {''__init__.py'', ''pyproject.toml''} \<subseteq> fst ` set (found_versions versions)"
    by (simp add: scenario_A_versions found_versions_def semver_1_2_3)
  with exit_code_zero_iff [of scenario_A] show ?thesis by simp
qed


text \<open>
  The same in terms of the grammar: the status is 0 exactly when the values found are
  one value that is a string of the grammar, or such a string followed by a line break,
  and both mandatory artifacts contributed.
\<close>

lemma exit_code_by_grammar:
  "script_exit_code fs =
     (if \<exists>versions v. snd (main_versions fs) = Inr versions \<and>
           set (map snd (found_versions versions)) = {v} \<and>
           (spec_semver v \<or> (\<exists>u. spec_semver u \<and> v = u @ [newline])) \<and>
           {''__init__.py'', ''pyproject.toml''} \<subseteq> fst ` set (found_versions versions)
      then 0 else 1)"
proof (cases "snd (main_versions fs)")
  case (Inl e)
  then show ?thesis by (simp add: script_exit_code_def main_of_raise)
next
  case (Inr versions)
  have code: "script_exit_code fs = (if snd (main_verdict versions) = Inr 0 then 0 else 1)"
    using verdict_code [of versions]
    by (auto simp: script_exit_code_def main_of_versions [OF Inr])
  have "snd (main_verdict versions) = Inr 0 \<longleftrightarrow>
      (\<exists>v. set (map snd (found_versions versions)) = {v} \<and>
           (spec_semver v \<or> (\<exists>u. spec_semver u \<and> v = u @ [newline])) \<and>
           {''__init__.py'', ''pyproject.toml''} \<subseteq> fst ` set (found_versions versions))"
  proof
    assume z: "snd (main_verdict versions) = Inr 0"
    then have ne: "found_versions versions \<noteq> []"
      and c: "card (set (map snd (found_versions versions))) \<le> 1"
      and ok: "\<forall>v \<in> set (map snd (found_versions versions)). validate_version_format v"
      and m: "{''__init__.py'', ''pyproject.toml''} \<subseteq> fst ` set (found_versions versions)"
      by (simp_all add: verdict_zero_iff)
    from ne have "card (set (map snd (found_versions versions))) \<noteq> 0" by simp
    with c have "card (set (map snd (found_versions versions))) = 1" by linarith
    then obtain v where v: "set (map snd (found_versions versions)) = {v}"
      by (auto simp: card_1_singleton_iff)
    from v have "v \<in> set (map snd (found_versions versions))" by simp
    with ok have "validate_version_format v" by blast
    then have "spec_semver v \<or> (\<exists>u. spec_semver u \<and> v = u @ [newline])"
      by (simp add: validate_version_format_iff)
    with v m show "\<exists>v. set (map snd (found_versions versions)) = {v} \<and>
           (spec_semver v \<or> (\<exists>u. spec_semver u \<and> v = u @ [newline])) \<and>
           {''__init__.py'', ''pyproject.toml''} \<subseteq> fst ` set (found_versions versions)"
      by blast
  next
    assume "\<exists>v. set (map snd (found_versions versions)) = {v} \<and>
           (spec_semver v \<or> (\<exists>u. spec_semver u \<and> v = u @ [newline])) \<and>
           {''__init__.py'', ''pyproject.toml''} \<subseteq> fst ` set (found_versions versions)"
    then obtain v where v: "set (map snd (found_versions versions)) = {v}"
      and g: "spec_semver v \<or> (\<exists>u. spec_semver u \<and> v = u @ [newline])"
      and m: "{''__init__.py'', ''pyproject.toml''} \<subseteq> fst ` set (found_versions versions)"
      by blast
    from g have "validate_version_format v" by (simp add: validate_version_format_iff)
    moreover from v have "found_versions versions \<noteq> []" by auto
    ultimately show "snd (main_verdict versions) = Inr 0"
      using v m by (simp add: verdict_zero_iff)
  qed
  with code Inr show ?thesis by simp
qed

text \<open>
  C7. The exit status is meant to be 0 only if the common value has a valid
  format. With \<^verbatim>\<open>1.0.0\<close> followed by a line break in both mandatory files every
  other check passes, the value is not a string of the grammar, and the exit status
  is 0: the validator's slip of C3 again.
\<close>

theorem exit_code_zero_with_invalid_format:
  "snd (main_versions trailing_newline) =
     Inr [(''__init__.py'', Some (''1.0.0'' @ [newline])),
          (''pyproject.toml'', Some (''1.0.0'' @ [newline])),
          (''setup.py'', None), (''Dockerfile'', None), (''GitHub workflow'', None)] \<and>
   \<not> spec_semver (''1.0.0'' @ [newline]) \<and>
   script_exit_code trailing_newline = 0"
  using not_spec_semver_trailing_newline
  by (simp add: trailing_newline_versions script_exit_code_def trailing_newline_exit)


section \<open>Files that cannot be read\<close>

text \<open>
  With \<^verbatim>\<open>__init__.py\<close> unreadable, \<^verbatim>\<open>main\<close> prints its opening line and ends in the
  exception: it returns no exit code and prints no diagnostic.
\<close>
theorem read_error_is_not_caught:
  "init_file unreadable_init = Unreadable \<and>
   snd (main unreadable_init) \<noteq> Inr 1 \<and>
   main unreadable_init = ([checking_line], Inl (ReadError ''ai_data_collector/__init__.py''))"
  by code_simp

lemma main_versions_raises:
  assumes "init_file fs = Unreadable \<or> pyproject_file fs = Unreadable \<or>
    setup_file fs = Unreadable \<or> dockerfile fs = Unreadable \<or> workflow_file fs = Unreadable"
  shows "\<exists>path. snd (main_versions fs) = Inl (ReadError path)"
proof (cases "snd (extract_version_from_init fs)")
  case (Inl e)
  then show ?thesis
    by (auto simp: main_versions_def io_bind_def extract_version_from_init_cases
        split: artifact.splits option.splits)
next
  case i: (Inr v1)
  show ?thesis
  proof (cases "snd (extract_version_from_pyproject fs)")
    case (Inl e)
    then show ?thesis using i
      by (auto simp: main_versions_def io_bind_def extract_version_from_pyproject_cases
          split: artifact.splits option.splits)
  next
    case p: (Inr v2)
    show ?thesis
    proof (cases "snd (extract_version_from_setup fs)")
      case (Inl e)
      then show ?thesis using i p
        by (auto simp: main_versions_def io_bind_def extract_version_from_setup_cases
            extract_version_from_init_cases split: artifact.splits option.splits if_splits)
    next
      case s: (Inr v3)
      show ?thesis
      proof (cases "snd (extract_version_from_dockerfile fs)")
        case (Inl e)
        then show ?thesis using i p s
          by (auto simp: main_versions_def io_bind_def extract_version_from_dockerfile_cases
              split: artifact.splits option.splits)
      next
        case d: (Inr v4)
        have i': "init_file fs \<noteq> Unreadable"
          using i by (auto simp: extract_version_from_init_cases)
        have p': "pyproject_file fs \<noteq> Unreadable"
          using p by (auto simp: extract_version_from_pyproject_cases)
        have s': "setup_file fs \<noteq> Unreadable"
          using s by (auto simp: extract_version_from_setup_cases)
        have d': "dockerfile fs \<noteq> Unreadable"
          using d by (auto simp: extract_version_from_dockerfile_cases)
        from assms i' p' s' d' have "workflow_file fs = Unreadable" by blast
        then have "snd (extract_version_from_github_workflow fs) = Inl (ReadError workflow_path)"
          by (simp add: extract_version_from_github_workflow_cases)
        then show ?thesis using i p s d
          by (simp add: main_versions_def io_bind_def)
      qed
    qed
  qed
qed

text \<open>
  C8, as the script behaves. The script does not catch a failing read. When a file exists
  and cannot be read, the exception leaves \<^verbatim>\<open>main\<close>: no exit code is returned, the
  lines printed are at most the opening line and diagnostics of the mandatory extractors
  (none for the read error), and the interpreter ends with status 1.
\<close>
theorem read_error_propagates:
  assumes "init_file fs = Unreadable \<or> pyproject_file fs = Unreadable \<or>
    setup_file fs = Unreadable \<or> dockerfile fs = Unreadable \<or> workflow_file fs = Unreadable"
  shows "(\<exists>path. snd (main fs) = Inl (ReadError path)) \<and>
    set (fst (main fs)) \<subseteq> insert checking_line extractor_lines \<and>
    script_exit_code fs = 1"
proof -
  from main_versions_raises [OF assms] obtain path
    where r: "snd (main_versions fs) = Inl (ReadError path)" ..
  show ?thesis
    using main_versions_lines [of fs]
    by (auto simp: main_of_raise [OF r] script_exit_code_def)
qed

theorem read_error_propagates_witness:
  "init_file unreadable_init = Unreadable \<and>
   (\<exists>path. snd (main unreadable_init) = Inl (ReadError path)) \<and>
   set (fst (main unreadable_init)) \<subseteq> insert checking_line extractor_lines \<and>
   script_exit_code unreadable_init = 1"
proof -
  have u: "init_file unreadable_init = Unreadable"
    by (simp add: unreadable_init_def project_def)
  then have "init_file unreadable_init = Unreadable \<or> pyproject_file unreadable_init = Unreadable \<or>
    setup_file unreadable_init = Unreadable \<or> dockerfile unreadable_init = Unreadable \<or>
    workflow_file unreadable_init = Unreadable" ..
  from read_error_propagates [OF this] u show ?thesis by blast
qed


section \<open>The workflow pattern inside a longer key\<close>

text \<open>
  C9. A workflow file whose only key ending in \<^verbatim>\<open>VERSION:\<close> is
  \<^verbatim>\<open>PYTHON_VERSION: 3.11\<close> makes the workflow extractor return \<^verbatim>\<open>3.11\<close>: the
  pattern is searched for anywhere in the text, inside a longer key too.
\<close>
theorem workflow_matches_suffix_of_key:
  "workflow_text = ''env:'' @ [newline] @ ''  PYTHON_VERSION: 3.11'' @ [newline] \<and>
   contains ''PYTHON_VERSION: 3.11'' workflow_text \<and>
   extract_version_from_github_workflow (scenario_A\<lparr>workflow_file := Text workflow_text\<rparr>) =
     ([], Inr (Some ''3.11''))"
  by code_simp


section \<open>The diagnostic of a delegating setup script\<close>

lemma init_not_found_line_not_in_verdict:
  "init_not_found_line \<notin> set (fst (main_verdict versions))"
  by (auto simp: main_verdict_def print_then_def Let_def init_not_found_line_def
      mismatch_line_def cross_mark_def light_bulb_def check_mark_def folder_def)

lemma pyproject_lines_other:
  "pyproject_file fs \<noteq> Unreadable \<Longrightarrow>
   (\<exists>r. snd (extract_version_from_pyproject fs) = Inr r) \<and>
   init_not_found_line \<notin> set (fst (extract_version_from_pyproject fs))"
  by (auto simp: extract_version_from_pyproject_cases init_not_found_line_def
      pyproject_not_found_line_def pyproject_no_version_line_def
      split: artifact.splits option.splits)

lemma main_lines_through_setup:
  assumes "snd (extract_version_from_init fs) = Inr v1"
    and "snd (extract_version_from_pyproject fs) = Inr v2"
    and "snd (extract_version_from_setup fs) = Inr v3"
  shows "\<exists>rest. fst (main fs) =
      checking_line # fst (extract_version_from_init fs)
        @ fst (extract_version_from_pyproject fs) @ fst (extract_version_from_setup fs) @ rest
      \<and> init_not_found_line \<notin> set rest"
proof (cases "snd (main_versions fs)")
  case (Inl e)
  have "fst (main_versions fs) = fst (extract_version_from_init fs)
        @ fst (extract_version_from_pyproject fs) @ fst (extract_version_from_setup fs)"
    using assms
    by (simp add: main_versions_def io_bind_def io_return_def dockerfile_silent
        github_workflow_silent split: sum.splits)
  then show ?thesis by (simp add: main_of_raise [OF Inl])
next
  case (Inr versions)
  have "fst (main_versions fs) = fst (extract_version_from_init fs)
        @ fst (extract_version_from_pyproject fs) @ fst (extract_version_from_setup fs)"
    using assms
    by (simp add: main_versions_def io_bind_def io_return_def dockerfile_silent
        github_workflow_silent split: sum.splits)
  then show ?thesis
    using init_not_found_line_not_in_verdict [of versions]
    by (simp add: main_of_versions [OF Inr])
qed

text \<open>
  C10, as the script behaves. When \<^verbatim>\<open>__init__.py\<close> does not exist, \<^verbatim>\<open>setup.py\<close>
  has no \<^verbatim>\<open>version=\<close> assignment and contains \<^verbatim>\<open>find_version()\<close>, and
  \<^verbatim>\<open>pyproject.toml\<close> is absent or can be read, then the extractor of \<^verbatim>\<open>__init__.py\<close>
  and the extractor of \<^verbatim>\<open>setup.py\<close> each print the not-found line and return nothing,
  and the output of \<^verbatim>\<open>main\<close> has that line exactly twice.
\<close>
theorem delegated_diagnostic_printed_twice:
  assumes i: "init_file fs = Missing"
    and s: "setup_file fs = Text content"
    and n: "re_search setup_pattern content = None"
    and c: "contains ''find_version()'' content"
    and p: "pyproject_file fs \<noteq> Unreadable"
  shows "extract_version_from_init fs =
      ([cross_mark @ '' ai_data_collector/__init__.py not found''], Inr None) \<and>
    extract_version_from_setup fs =
      ([cross_mark @ '' ai_data_collector/__init__.py not found''], Inr None) \<and>
    count_list (fst (main fs)) (cross_mark @ '' ai_data_collector/__init__.py not found'') = 2"
proof -
  have e1: "extract_version_from_init fs = ([init_not_found_line], Inr None)"
    using i by (simp add: extract_version_from_init_cases)
  have e3: "extract_version_from_setup fs = ([init_not_found_line], Inr None)"
    using s n c e1 by (simp add: extract_version_from_setup_cases)
  from pyproject_lines_other [OF p] obtain r
    where e2: "snd (extract_version_from_pyproject fs) = Inr r"
      and l2: "init_not_found_line \<notin> set (fst (extract_version_from_pyproject fs))"
    by blast
  from main_lines_through_setup [of fs None r None] e1 e2 e3 obtain rest
    where out: "fst (main fs) = checking_line # [init_not_found_line]
        @ fst (extract_version_from_pyproject fs) @ [init_not_found_line] @ rest"
      and rest: "init_not_found_line \<notin> set rest"
    by auto
  have "init_not_found_line \<noteq> checking_line"
    by (simp add: init_not_found_line_def checking_line_def cross_mark_def magnifier_def)
  then have "count_list (fst (main fs)) init_not_found_line = 2"
    using l2 rest by (simp add: out count_list_0_iff)
  with e1 e3 show ?thesis by (simp add: init_not_found_line_def)
qed

lemma setup_text_facts:
  "re_search setup_pattern setup_text = None" "contains ''find_version()'' setup_text"
  by code_simp+

theorem delegated_diagnostic_printed_twice_witness:
  "init_file delegating_setup = Missing \<and>
   setup_file delegating_setup = Text setup_text \<and>
   re_search setup_pattern setup_text = None \<and>
   contains ''find_version()'' setup_text \<and>
   pyproject_file delegating_setup \<noteq> Unreadable \<and>
   extract_version_from_init delegating_setup =
      ([cross_mark @ '' ai_data_collector/__init__.py not found''], Inr None) \<and>
   extract_version_from_setup delegating_setup =
      ([cross_mark @ '' ai_data_collector/__init__.py not found''], Inr None) \<and>
   count_list (fst (main delegating_setup))
      (cross_mark @ '' ai_data_collector/__init__.py not found'') = 2"
proof -
  have i: "init_file delegating_setup = Missing"
    and s: "setup_file delegating_setup = Text setup_text"
    and p: "pyproject_file delegating_setup \<noteq> Unreadable"
    by (simp_all add: delegating_setup_def project_def)
  show ?thesis
    using delegated_diagnostic_printed_twice [OF i s setup_text_facts p] i s p setup_text_facts
    by simp
qed

text \<open>
  With \<^verbatim>\<open>pyproject.toml\<close> unreadable the run ends before \<^verbatim>\<open>setup.py\<close> is looked at,
  and the not-found line has been printed once.
\<close>
theorem delegated_diagnostic_printed_once:
  "init_file delegating_setup_unreadable_pyproject = Missing \<and>
   setup_file delegating_setup_unreadable_pyproject = Text setup_text \<and>
   re_search setup_pattern setup_text = None \<and>
   contains ''find_version()'' setup_text \<and>
   main delegating_setup_unreadable_pyproject =
     ([checking_line, cross_mark @ '' ai_data_collector/__init__.py not found''],
      Inl (ReadError ''pyproject.toml'')) \<and>
   count_list (fst (main delegating_setup_unreadable_pyproject))
      (cross_mark @ '' ai_data_collector/__init__.py not found'') \<noteq> 2"
  by code_simp

end
